theory Spec2Isabelle
  imports Complex_Main "HOL-Library.Log_Nat" "HOL-Library.Multiset" "HOL-Library.Sublist"
begin

section \<open>Python values\<close>

subsection \<open>Floats: IEEE 754 binary64, round to nearest, ties to even\<close>

text \<open>
  A Python float is a binary64 number.  A finite float is modelled by the real number
  it denotes, the two infinities and NaN are constructors of their own.  Every arithmetic
  operation computes the exact result and rounds it with \<open>r64\<close>.  The model has
  one zero: \<open>-0.0\<close> and \<open>0.0\<close> are identified, as Python's \<open>==\<close> does; the functions
  modelled below never format a zero, and a division by either zero raises.
\<close>

datatype pyfloat = Fin real | PInf | NInf | NaN

definition pow2 :: "int \<Rightarrow> real" where
  "pow2 e = (if 0 \<le> e then 2 ^ nat e else 1 / 2 ^ nat (- e))"

text \<open>\<open>ilog2 a\<close> is the binary exponent of a positive number: \<open>2^e \<le> a < 2^(e+1)\<close>.\<close>

definition ilog2 :: "real \<Rightarrow> int" where
  "ilog2 a = (if 1 \<le> a then bitlen \<lfloor>a\<rfloor> - 1 else - bitlen (\<lceil>1 / a\<rceil> - 1))"

text \<open>Rounding to an integer, ties to the even neighbour.\<close>

definition rnd_pick :: "int \<Rightarrow> real \<Rightarrow> int" where
  "rnd_pick f d =
     (if d < 1 / 2 then f else if 1 / 2 < d then f + 1 else if even f then f else f + 1)"

definition rnd_even :: "real \<Rightarrow> int" where
  "rnd_even x = rnd_pick \<lfloor>x\<rfloor> (x - of_int \<lfloor>x\<rfloor>)"

text \<open>
  Rounding to binary64: 53 significant bits, least normal exponent \<open>-1022\<close> (below it the
  spacing stays \<open>2^-1074\<close>, the subnormal range), overflow to an infinity from \<open>2^1024\<close> on.
  \<open>r64_mag a e\<close> is the multiple of \<open>2^(e-52)\<close> nearest to the magnitude \<open>a\<close>.
\<close>

definition r64_mag :: "real \<Rightarrow> int \<Rightarrow> real" where
  "r64_mag a e = of_int (rnd_even (a / pow2 (e - 52))) * pow2 (e - 52)"

definition r64_pack :: "real \<Rightarrow> real \<Rightarrow> pyfloat" where
  "r64_pack x y =
     (if pow2 1024 \<le> y then (if 0 < x then PInf else NInf) else Fin (if 0 < x then y else - y))"

definition r64 :: "real \<Rightarrow> pyfloat" where
  "r64 x = (if x = 0 then Fin 0 else r64_pack x (r64_mag \<bar>x\<bar> (max (ilog2 \<bar>x\<bar>) (- 1022))))"

text \<open>
  The type \<open>pyfloat\<close> also holds reals that no binary64 number denotes.  \<open>is_double v\<close>
  says that \<open>v\<close> is a float: rounding leaves it unchanged.  Every operation below returns
  a float (\<open>is_double_r64\<close>).
\<close>

definition is_double :: "pyfloat \<Rightarrow> bool" where
  "is_double v = (case v of Fin x \<Rightarrow> r64 x = Fin x | _ \<Rightarrow> True)"

datatype pyexc = AttributeError | OverflowError | TypeError | ValueError | ZeroDivisionError

fun ebind :: "pyexc + 'a \<Rightarrow> ('a \<Rightarrow> pyexc + 'b) \<Rightarrow> pyexc + 'b" where
  "ebind (Inl e) f = Inl e"
| "ebind (Inr x) f = f x"

fun fneg :: "pyfloat \<Rightarrow> pyfloat" where
  "fneg (Fin a) = Fin (- a)"
| "fneg PInf = NInf"
| "fneg NInf = PInf"
| "fneg NaN = NaN"

fun fadd :: "pyfloat \<Rightarrow> pyfloat \<Rightarrow> pyfloat" where
  "fadd (Fin a) (Fin b) = r64 (a + b)"
| "fadd NaN _ = NaN"
| "fadd _ NaN = NaN"
| "fadd PInf NInf = NaN"
| "fadd NInf PInf = NaN"
| "fadd PInf _ = PInf"
| "fadd NInf _ = NInf"
| "fadd _ PInf = PInf"
| "fadd _ NInf = NInf"

definition fsub :: "pyfloat \<Rightarrow> pyfloat \<Rightarrow> pyfloat" where
  "fsub a b = fadd a (fneg b)"

definition fsign :: "pyfloat \<Rightarrow> int" where
  "fsign v = (case v of Fin a \<Rightarrow> (if 0 < a then 1 else if a < 0 then - 1 else 0)
      | PInf \<Rightarrow> 1 | NInf \<Rightarrow> - 1 | NaN \<Rightarrow> 0)"

definition finf :: "int \<Rightarrow> pyfloat" where
  "finf s = (if s = 0 then NaN else if 0 < s then PInf else NInf)"

fun fmul :: "pyfloat \<Rightarrow> pyfloat \<Rightarrow> pyfloat" where
  "fmul (Fin a) (Fin b) = r64 (a * b)"
| "fmul NaN _ = NaN"
| "fmul _ NaN = NaN"
| "fmul a b = finf (fsign a * fsign b)"

text \<open>
  \<open>fquot\<close> is the IEEE quotient for a divisor other than zero.  Python's \<open>/\<close> raises
  \<open>ZeroDivisionError\<close> for every float division by zero and returns the quotient otherwise.
\<close>

fun fquot :: "pyfloat \<Rightarrow> pyfloat \<Rightarrow> pyfloat" where
  "fquot (Fin a) (Fin b) = r64 (a / b)"
| "fquot NaN _ = NaN"
| "fquot _ NaN = NaN"
| "fquot (Fin a) _ = Fin 0"
| "fquot a (Fin b) = finf (fsign a * fsign (Fin b))"
| "fquot _ _ = NaN"

definition fdiv :: "pyfloat \<Rightarrow> pyfloat \<Rightarrow> pyexc + pyfloat" where
  "fdiv a b = (if b = Fin 0 then Inl ZeroDivisionError else Inr (fquot a b))"

text \<open>Comparisons: every comparison with NaN is false.\<close>

fun flt :: "pyfloat \<Rightarrow> pyfloat \<Rightarrow> bool" where
  "flt NaN _ = False"
| "flt _ NaN = False"
| "flt (Fin a) (Fin b) = (a < b)"
| "flt NInf b = (b \<noteq> NInf)"
| "flt a PInf = (a \<noteq> PInf)"
| "flt _ _ = False"

fun feq :: "pyfloat \<Rightarrow> pyfloat \<Rightarrow> bool" where
  "feq NaN _ = False"
| "feq _ NaN = False"
| "feq a b = (a = b)"

definition fle :: "pyfloat \<Rightarrow> pyfloat \<Rightarrow> bool" where
  "fle a b = (flt a b \<or> feq a b)"

definition fgt :: "pyfloat \<Rightarrow> pyfloat \<Rightarrow> bool" where
  "fgt a b = flt b a"

definition fge :: "pyfloat \<Rightarrow> pyfloat \<Rightarrow> bool" where
  "fge a b = fle b a"

text \<open>
  \<open>round(x, 1)\<close>: the exact value of \<open>x\<close> rounded to one decimal, ties to even, and the
  float nearest to that decimal; infinities and NaN round to themselves.
\<close>

fun round1 :: "pyfloat \<Rightarrow> pyfloat" where
  "round1 (Fin x) = r64 (of_int (rnd_even (x * 10)) / 10)"
| "round1 v = v"

subsection \<open>Strings\<close>

text \<open>
  A string is a list of characters, taken from ASCII.  \<open>lower\<close> is modelled on the ASCII
  letters, which is all the player pools contain; the letters, digits and spaces of other
  scripts are not represented.
\<close>

definition is_space :: "char \<Rightarrow> bool" where
  "is_space c = (c \<in> set [CHR '' '', CHR 0x09, CHR 0x0A, CHR 0x0B, CHR 0x0C, CHR 0x0D,
     CHR 0x1C, CHR 0x1D, CHR 0x1E, CHR 0x1F])"

definition is_digit :: "char \<Rightarrow> bool" where
  "is_digit c = (c \<in> set ''0123456789'')"

definition digit_val :: "char \<Rightarrow> int" where
  "digit_val c = (case map_of [(CHR ''0'', 0), (CHR ''1'', 1), (CHR ''2'', 2), (CHR ''3'', 3),
       (CHR ''4'', 4), (CHR ''5'', 5), (CHR ''6'', 6), (CHR ''7'', 7), (CHR ''8'', 8),
       (CHR ''9'', 9)] c of Some d \<Rightarrow> d | None \<Rightarrow> 0)"

fun dec_val :: "int \<Rightarrow> string \<Rightarrow> int" where
  "dec_val n [] = n"
| "dec_val n (c # cs) = dec_val (10 * n + digit_val c) cs"

definition lower_char :: "char \<Rightarrow> char" where
  "lower_char c = (case map_of (zip ''ABCDEFGHIJKLMNOPQRSTUVWXYZ'' ''abcdefghijklmnopqrstuvwxyz'') c
      of Some d \<Rightarrow> d | None \<Rightarrow> c)"

definition py_lower :: "string \<Rightarrow> string" where
  "py_lower s = map lower_char s"

definition py_strip :: "string \<Rightarrow> string" where
  "py_strip s = rev (dropWhile is_space (rev (dropWhile is_space s)))"

text \<open>\<open>s.lstrip(".")\<close> and \<open>s.split("/")[0]\<close>.\<close>

definition lstrip_dot :: "string \<Rightarrow> string" where
  "lstrip_dot s = dropWhile (\<lambda>c. c = CHR ''.'') s"

definition split_slash_first :: "string \<Rightarrow> string" where
  "split_slash_first s = takeWhile (\<lambda>c. c \<noteq> CHR ''/'') s"

subsection \<open>\<open>float(s)\<close> on a string\<close>

text \<open>
  \<open>float\<close> strips white space, accepts an underscore between two digits, an optional sign,
  then \<open>inf\<close>, \<open>infinity\<close> or \<open>nan\<close> in any case, or a decimal number with an optional
  exponent; the whole string has to match.  The value is the float nearest to the decimal
  number.  \<open>None\<close> stands for \<open>ValueError\<close>.
\<close>

fun drop_underscores :: "char \<Rightarrow> string \<Rightarrow> string option" where
  "drop_underscores prev [] = (if prev = CHR ''_'' then None else Some [])"
| "drop_underscores prev (c # cs) =
     (if c = CHR ''_'' then (if is_digit prev then drop_underscores c cs else None)
      else if prev = CHR ''_'' \<and> \<not> is_digit c then None
      else map_option ((#) c) (drop_underscores c cs))"

fun split_sign :: "string \<Rightarrow> bool \<times> string" where
  "split_sign [] = (False, [])"
| "split_sign (c # cs) =
     (if c = CHR ''-'' then (True, cs) else if c = CHR ''+'' then (False, cs) else (False, c # cs))"

definition pow10 :: "int \<Rightarrow> real" where
  "pow10 e = (if 0 \<le> e then 10 ^ nat e else 1 / 10 ^ nat (- e))"

definition signed_digits :: "bool \<times> string \<Rightarrow> int option" where
  "signed_digits p = (case p of (neg, ds) \<Rightarrow>
     if ds \<noteq> [] \<and> list_all is_digit ds
     then Some (if neg then - dec_val 0 ds else dec_val 0 ds) else None)"

fun parse_exponent :: "string \<Rightarrow> int option" where
  "parse_exponent [] = Some 0"
| "parse_exponent (c # cs) =
     (if c = CHR ''e'' \<or> c = CHR ''E'' then signed_digits (split_sign cs) else None)"

fun parse_fraction :: "string \<Rightarrow> string \<times> string" where
  "parse_fraction [] = ([], [])"
| "parse_fraction (c # cs) =
     (if c = CHR ''.'' then (takeWhile is_digit cs, dropWhile is_digit cs) else ([], c # cs))"

definition decimal_value :: "string \<Rightarrow> string \<Rightarrow> int option \<Rightarrow> real option" where
  "decimal_value ip fp ex =
     (if ip = [] \<and> fp = [] then None
      else map_option (\<lambda>e. of_int (dec_val 0 (ip @ fp)) * pow10 (e - int (length fp))) ex)"

definition parse_decimal :: "string \<Rightarrow> real option" where
  "parse_decimal s =
     decimal_value (takeWhile is_digit s) (fst (parse_fraction (dropWhile is_digit s)))
       (parse_exponent (snd (parse_fraction (dropWhile is_digit s))))"

definition parse_signed :: "bool \<times> string \<Rightarrow> pyfloat option" where
  "parse_signed p = (case p of (neg, r) \<Rightarrow>
     if py_lower r = ''inf'' \<or> py_lower r = ''infinity'' then Some (if neg then NInf else PInf)
     else if py_lower r = ''nan'' then Some NaN
     else map_option (\<lambda>x. r64 (if neg then - x else x)) (parse_decimal r))"

definition float_of_string :: "string \<Rightarrow> pyfloat option" where
  "float_of_string s =
     (case drop_underscores (CHR 0x00) (py_strip s) of None \<Rightarrow> None
      | Some u \<Rightarrow> parse_signed (split_sign u))"

subsection \<open>Dynamic values and dictionaries\<close>

text \<open>
  The values a decoded JSON document holds.  A dictionary is an association list in
  insertion order; \<open>dget\<close> is \<open>d.get(k, default)\<close> and \<open>dset\<close> is \<open>d[k] = v\<close>.
\<close>

datatype pyval = PNone | PBool bool | PInt int | PFloat pyfloat | PStr string
  | PList "pyval list" | PDict "(string \<times> pyval) list"

type_synonym pydict = "(string \<times> pyval) list"

definition dget :: "('k \<times> 'v) list \<Rightarrow> 'k \<Rightarrow> 'v \<Rightarrow> 'v" where
  "dget d k dflt = (case map_of d k of Some v \<Rightarrow> v | None \<Rightarrow> dflt)"

fun dset :: "'k \<Rightarrow> 'v \<Rightarrow> ('k \<times> 'v) list \<Rightarrow> ('k \<times> 'v) list" where
  "dset k v [] = [(k, v)]"
| "dset k v ((k', v') # d) = (if k' = k then (k, v) # d else (k', v') # dset k v d)"

fun truthy :: "pyval \<Rightarrow> bool" where
  "truthy PNone = False"
| "truthy (PBool b) = b"
| "truthy (PInt n) = (n \<noteq> 0)"
| "truthy (PFloat f) = (f \<noteq> Fin 0)"
| "truthy (PStr s) = (s \<noteq> [])"
| "truthy (PList l) = (l \<noteq> [])"
| "truthy (PDict d) = (d \<noteq> [])"

text \<open>
  \<open>float(v)\<close>: \<open>TypeError\<close> for a value that is no number and no string, \<open>ValueError\<close> for
  a string that is no number, \<open>OverflowError\<close> for an integer beyond the float range.
\<close>

fun py_float :: "pyval \<Rightarrow> pyexc + pyfloat" where
  "py_float PNone = Inl TypeError"
| "py_float (PBool b) = Inr (Fin (if b then 1 else 0))"
| "py_float (PInt n) = (case r64 (of_int n) of Fin x \<Rightarrow> Inr (Fin x) | _ \<Rightarrow> Inl OverflowError)"
| "py_float (PFloat f) = Inr f"
| "py_float (PStr s) = (case float_of_string s of Some f \<Rightarrow> Inr f | None \<Rightarrow> Inl ValueError)"
| "py_float (PList l) = Inl TypeError"
| "py_float (PDict d) = Inl TypeError"

section \<open>Scoring models\<close>

text \<open>
  \<open>try: float(v) except (ValueError, TypeError): default\<close>.  Any other exception
  propagates.
\<close>

definition float_or :: "pyfloat \<Rightarrow> pyval \<Rightarrow> pyexc + pyfloat" where
  "float_or dflt v = (case py_float v of Inl ValueError \<Rightarrow> Inr dflt | Inl TypeError \<Rightarrow> Inr dflt
      | r \<Rightarrow> r)"

definition safe_float :: "pyval \<Rightarrow> pyexc + pyfloat" where
  "safe_float v = float_or (Fin 0) v"

definition NBA_POINTS_WEIGHTS :: "(string \<times> pyfloat) list" where
  "NBA_POINTS_WEIGHTS = [(''pts'', r64 1), (''reb'', r64 (12 / 10)), (''ast'', r64 (15 / 10)),
     (''stl'', r64 3), (''blk'', r64 3), (''fg3m'', r64 (5 / 10)), (''tov'', r64 (- 1))]"

definition MLB_HITTING_WEIGHTS :: "(string \<times> pyfloat) list" where
  "MLB_HITTING_WEIGHTS = [(''runs'', r64 1), (''hr'', r64 4), (''rbi'', r64 1), (''sb'', r64 2),
     (''avg_bonus'', r64 5)]"

definition MLB_PITCHING_WEIGHTS :: "(string \<times> pyfloat) list" where
  "MLB_PITCHING_WEIGHTS = [(''wins'', r64 5), (''so'', r64 1), (''saves'', r64 5),
     (''era_bonus'', r64 (- 2)), (''whip_bonus'', r64 (- 3))]"

text \<open>The loop \<open>for stat_key, weight in ...: total += _safe_float(stats.get(stat_key, 0)) * weight\<close>.\<close>

fun weighted_sum :: "pydict \<Rightarrow> (string \<times> pyfloat) list \<Rightarrow> pyfloat \<Rightarrow> pyexc + pyfloat" where
  "weighted_sum stats [] tot = Inr tot"
| "weighted_sum stats ((k, w) # ws) tot =
     ebind (safe_float (dget stats k (PInt 0)))
       (\<lambda>x. weighted_sum stats ws (fadd tot (fmul x w)))"

definition compute_nba_points_value :: "pydict \<Rightarrow> pyexc + pyfloat" where
  "compute_nba_points_value stats =
     (if stats = [] then Inr (Fin 0)
      else ebind (weighted_sum stats NBA_POINTS_WEIGHTS (Fin 0)) (\<lambda>tot. Inr (round1 tot)))"

text \<open>The loop over \<open>("runs", "hr", "rbi", "sb")\<close> with \<open>MLB_HITTING_WEIGHTS.get(stat_key, 0)\<close>.\<close>

fun hitting_sum :: "pydict \<Rightarrow> string list \<Rightarrow> pyfloat \<Rightarrow> pyexc + pyfloat" where
  "hitting_sum stats [] tot = Inr tot"
| "hitting_sum stats (k # ks) tot =
     ebind (safe_float (dget stats k (PInt 0)))
       (\<lambda>x. hitting_sum stats ks (fadd tot (fmul x (dget MLB_HITTING_WEIGHTS k (Fin 0)))))"

text \<open>
  \<open>try: float(v.lstrip(".") or fallback) / 1000 except (ValueError, TypeError): dflt\<close>.
  Of the values of \<open>pyval\<close> only a string has an attribute \<open>lstrip\<close>; on every other
  value the attribute access raises \<open>AttributeError\<close>, which the handler does not catch.
\<close>

definition batting_avg :: "pyval \<Rightarrow> string \<Rightarrow> pyfloat \<Rightarrow> pyexc + pyfloat" where
  "batting_avg v fallback dflt = (case v of
       PStr s \<Rightarrow>
         (case float_of_string (if lstrip_dot s = [] then fallback else lstrip_dot s) of
            None \<Rightarrow> Inr dflt
          | Some f \<Rightarrow> fdiv f (Fin 1000))
     | _ \<Rightarrow> Inl AttributeError)"

definition avg_bonus :: "pyfloat \<Rightarrow> pyfloat \<Rightarrow> pyfloat" where
  "avg_bonus tot avg =
     (if fgt avg (r64 (270 / 1000))
      then fadd tot (fmul (fmul (fsub avg (r64 (270 / 1000))) (Fin 1000))
                          (dget MLB_HITTING_WEIGHTS ''avg_bonus'' (Fin 0)))
      else tot)"

definition compute_mlb_hitting_value :: "pydict \<Rightarrow> pyexc + pyfloat" where
  "compute_mlb_hitting_value stats =
     (if stats = [] then Inr (Fin 0)
      else ebind (hitting_sum stats [''runs'', ''hr'', ''rbi'', ''sb''] (Fin 0)) (\<lambda>tot.
           ebind (batting_avg (dget stats ''avg'' (PStr ''.250'')) ''250'' (r64 (250 / 1000)))
             (\<lambda>avg. Inr (round1 (avg_bonus tot avg)))))"

text \<open>\<open>if x > limit: total += (x - limit) / step * weight\<close>, used for ERA and for WHIP.\<close>

definition penalty :: "pyfloat \<Rightarrow> pyfloat \<Rightarrow> pyfloat \<Rightarrow> pyfloat \<Rightarrow> pyfloat \<Rightarrow> pyexc + pyfloat" where
  "penalty tot x limit step weight =
     (if fgt x limit
      then ebind (fdiv (fsub x limit) step) (\<lambda>q. Inr (fadd tot (fmul q weight)))
      else Inr tot)"

definition pitching_base :: "pydict \<Rightarrow> pyexc + pyfloat" where
  "pitching_base stats =
     ebind (safe_float (dget stats ''wins'' (PInt 0))) (\<lambda>w.
     ebind (safe_float (dget stats ''so'' (PInt 0))) (\<lambda>k.
     ebind (safe_float (dget stats ''saves'' (PInt 0))) (\<lambda>sv.
       Inr (fadd (fadd (fadd (Fin 0) (fmul w (dget MLB_PITCHING_WEIGHTS ''wins'' (Fin 0))))
                       (fmul k (dget MLB_PITCHING_WEIGHTS ''so'' (Fin 0))))
                 (fmul sv (dget MLB_PITCHING_WEIGHTS ''saves'' (Fin 0)))))))"

definition compute_mlb_pitching_value :: "pydict \<Rightarrow> pyexc + pyfloat" where
  "compute_mlb_pitching_value stats =
     (if stats = [] then Inr (Fin 0)
      else ebind (pitching_base stats) (\<lambda>tot.
           ebind (float_or (r64 (350 / 100)) (dget stats ''era'' (PStr ''3.50''))) (\<lambda>era.
           ebind (penalty tot era (r64 (350 / 100)) (r64 (50 / 100))
                    (dget MLB_PITCHING_WEIGHTS ''era_bonus'' (Fin 0))) (\<lambda>tot1.
           ebind (float_or (r64 (120 / 100)) (dget stats ''whip'' (PStr ''1.20''))) (\<lambda>whip.
           ebind (penalty tot1 whip (r64 (120 / 100)) (r64 (10 / 100))
                    (dget MLB_PITCHING_WEIGHTS ''whip_bonus'' (Fin 0))) (\<lambda>tot2.
             Inr (round1 tot2)))))))"

section \<open>Trend, sleepers, value over replacement\<close>

text \<open>
  The builtin \<open>sum\<close> on a list of floats, starting from the integer 0.  CPython before 3.12
  adds the items from left to right (\<open>plain_sum\<close>); from 3.12 on it carries Neumaier's
  compensation term along and adds it at the end when it is finite and not zero
  (\<open>neumaier_sum\<close>).  The functions that call \<open>sum\<close> take the float sum as the
  parameter \<open>float_sum\<close>, and what is proved of them holds for every such sum.
\<close>

definition plain_sum :: "pyfloat list \<Rightarrow> pyfloat" where
  "plain_sum xs = foldl fadd (Fin 0) xs"

fun fabs :: "pyfloat \<Rightarrow> pyfloat" where
  "fabs (Fin a) = Fin \<bar>a\<bar>"
| "fabs PInf = PInf"
| "fabs NInf = PInf"
| "fabs NaN = NaN"

fun is_finite :: "pyfloat \<Rightarrow> bool" where
  "is_finite (Fin a) = True"
| "is_finite v = False"

definition neumaier_step :: "pyfloat \<times> pyfloat \<Rightarrow> pyfloat \<Rightarrow> pyfloat \<times> pyfloat" where
  "neumaier_step fc x = (case fc of (f, c) \<Rightarrow>
     (fadd f x,
      if fge (fabs f) (fabs x) then fadd c (fadd (fsub f (fadd f x)) x)
      else fadd c (fadd (fsub x (fadd f x)) f)))"

definition neumaier_finish :: "pyfloat \<times> pyfloat \<Rightarrow> pyfloat" where
  "neumaier_finish fc = (case fc of (f, c) \<Rightarrow> if c \<noteq> Fin 0 \<and> is_finite c then fadd f c else f)"

fun neumaier_sum :: "pyfloat list \<Rightarrow> pyfloat" where
  "neumaier_sum [] = Fin 0"
| "neumaier_sum (x # xs) = neumaier_finish (foldl neumaier_step (fadd (Fin 0) x, Fin 0) xs)"

text \<open>
  The items of \<open>sum(_safe_float(g.get("pts", 0)) for g in game_log)\<close>: the generator yields
  them one by one, and an exception in one of them ends the sum.
\<close>

fun read_pts :: "pydict list \<Rightarrow> pyexc + pyfloat list" where
  "read_pts [] = Inr []"
| "read_pts (g # gs) =
     ebind (safe_float (dget g ''pts'' (PInt 0))) (\<lambda>x.
     ebind (read_pts gs) (\<lambda>xs. Inr (x # xs)))"

definition trend_of :: "pyfloat \<Rightarrow> pyfloat \<Rightarrow> nat \<Rightarrow> pyexc + pyfloat" where
  "trend_of season_ppg s n =
     ebind (fdiv s (r64 (of_nat n))) (\<lambda>recent_ppg.
     ebind (fdiv (fsub recent_ppg season_ppg) season_ppg) (\<lambda>q.
       Inr (round1 (fmul q (Fin 100)))))"

definition compute_recent_trend :: "(pyfloat list \<Rightarrow> pyfloat) \<Rightarrow> pydict \<Rightarrow> pydict list
    \<Rightarrow> pyexc + pyfloat" where
  "compute_recent_trend float_sum season_stats game_log =
     (if game_log = [] \<or> season_stats = [] then Inr (Fin 0)
      else ebind (safe_float (dget season_stats ''pts'' (PInt 0))) (\<lambda>season_ppg.
           if feq season_ppg (Fin 0) then Inr (Fin 0)
           else ebind (read_pts game_log)
                  (\<lambda>xs. trend_of season_ppg (float_sum xs) (length game_log))))"

text \<open>The formats \<open>{x:.0f}\<close> and \<open>{x:.1f}\<close>: the exact value rounded, ties to even.\<close>

definition digit_char :: "nat \<Rightarrow> char" where
  "digit_char d = ''0123456789'' ! d"

function show_nat :: "nat \<Rightarrow> string" where
  "show_nat n = (if n < 10 then [digit_char n] else show_nat (n div 10) @ [digit_char (n mod 10)])"
  by pat_completeness auto
termination
  by (relation "measure id") auto

declare show_nat.simps [simp del]

fun fmt_f0 :: "pyfloat \<Rightarrow> string" where
  "fmt_f0 (Fin x) = (if x < 0 then ''-'' else []) @ show_nat (nat (rnd_even \<bar>x\<bar>))"
| "fmt_f0 PInf = ''inf''"
| "fmt_f0 NInf = ''-inf''"
| "fmt_f0 NaN = ''nan''"

fun fmt_f1 :: "pyfloat \<Rightarrow> string" where
  "fmt_f1 (Fin x) = (if x < 0 then ''-'' else []) @ show_nat (nat (rnd_even (\<bar>x\<bar> * 10)) div 10)
     @ ''.'' @ [digit_char (nat (rnd_even (\<bar>x\<bar> * 10)) mod 10)]"
| "fmt_f1 PInf = ''inf''"
| "fmt_f1 NInf = ''-inf''"
| "fmt_f1 NaN = ''nan''"

text \<open>
  The spring-training rule of \<open>identify_sleeper\<close>.  The reason prints \<open>stats.get('avg', '')\<close>,
  which is a string whenever the rule fires.
\<close>

definition str_of :: "pyval \<Rightarrow> string" where
  "str_of v = (case v of PStr s \<Rightarrow> s | _ \<Rightarrow> [])"

definition spring_rule :: "pydict \<Rightarrow> pyexc + bool \<times> string" where
  "spring_rule stats =
     ebind (batting_avg (dget stats ''avg'' (PStr ''.000'')) ''0'' (Fin 0)) (\<lambda>avg.
       if fge avg (r64 (350 / 1000))
       then ebind (safe_float (dget stats ''games'' (PInt 0))) (\<lambda>g.
              if fge g (Fin 5)
              then Inr (True, ''Spring training breakout ('' @ str_of (dget stats ''avg'' (PStr []))
                         @ '' AVG)'')
              else Inr (False, []))
       else Inr (False, []))"

definition position_rules :: "pydict \<Rightarrow> pyfloat \<Rightarrow> pyval \<Rightarrow> pyfloat \<Rightarrow> pyfloat
    \<Rightarrow> pyexc + bool \<times> string" where
  "position_rules stats trend position blk stl =
     (if position \<in> set [PStr ''C'', PStr ''PF''] \<and> fge blk (r64 2) \<and> fge trend (Fin 5)
      then Inr (True, ''Elite blocks ('' @ fmt_f1 blk @ ''/g) with upward trend'')
      else if position \<in> set [PStr ''PG'', PStr ''SG''] \<and> fge stl (r64 (18 / 10))
              \<and> fge trend (Fin 5)
      then Inr (True, ''Elite steals ('' @ fmt_f1 stl @ ''/g) with upward trend'')
      else if dget stats ''type'' PNone = PStr ''spring_training'' then spring_rule stats
      else Inr (False, []))"

definition identify_sleeper :: "pydict \<Rightarrow> pyfloat \<Rightarrow> pyfloat \<Rightarrow> pyval
    \<Rightarrow> pyexc + bool \<times> string" where
  "identify_sleeper stats trend fantasy_value position =
     (if fge trend (r64 15) \<and> fgt fantasy_value (Fin 20)
      then Inr (True, ''Trending +'' @ fmt_f0 trend @ ''% over last 10 games'')
      else ebind (safe_float (dget stats ''blk'' (PInt 0))) (\<lambda>blk.
           ebind (safe_float (dget stats ''stl'' (PInt 0))) (\<lambda>stl.
             position_rules stats trend position blk stl)))"

definition compute_vor :: "pyfloat \<Rightarrow> string \<Rightarrow> (string \<times> pyfloat) list \<Rightarrow> pyfloat" where
  "compute_vor player_value position replacement_values =
     round1 (fsub player_value (dget replacement_values position (Fin 0)))"

section \<open>Draft board builder\<close>

record RankedPlayer =
  name :: string
  team :: pyval
  position :: pyval
  fantasy_value :: pyfloat
  vor :: pyfloat
  season_stats :: pydict
  recent_trend :: pyfloat
  live_note :: pyval
  is_sleeper :: bool
  sleeper_reason :: string
  recommendation :: string

text \<open>
  The stat providers of \<open>external_stats\<close> answer over HTTP; they return a dictionary (empty
  when nothing is found) and never raise.  One invocation of the builder sees them as
  functions of their arguments.  \<open>hot_players\<close> is what the live context extracted, the
  empty dictionary when there is no live context.
\<close>

record providers =
  get_nba_player_season_stats :: "string \<Rightarrow> pydict"
  get_nba_player_game_log :: "pyval \<Rightarrow> pydict list"
  get_mlb_player_stats :: "string \<Rightarrow> string \<Rightarrow> pydict"
  get_mlb_spring_training_stats :: "string \<Rightarrow> pydict"
  hot_players :: "(string \<times> pydict) list"

definition NBA_DEFAULT_POOL :: "string list" where
  "NBA_DEFAULT_POOL = [
    ''Nikola Jokic'', ''Luka Doncic'', ''Shai Gilgeous-Alexander'',
    ''Jayson Tatum'', ''Anthony Edwards'', ''Victor Wembanyama'',
    ''Tyrese Haliburton'', ''Domantas Sabonis'', ''LeBron James'',
    ''Kevin Durant'', ''Damian Lillard'', ''Devin Booker'',
    ''Anthony Davis'', ''Trae Young'', ''Bam Adebayo'',
    [CHR ''D'', CHR ''e'', CHR 0x27] @ ''Aaron Fox'', ''Donovan Mitchell'', ''Jalen Brunson'',
    ''Jaren Jackson Jr'', ''Chet Holmgren'', ''Paolo Banchero'',
    ''Scottie Barnes'', ''Darius Garland'', ''Tyler Herro'',
    ''Lauri Markkanen'', ''Franz Wagner'', ''Cade Cunningham'',
    ''Tyrese Maxey'', ''Desmond Bane'', ''Dejounte Murray'']"

definition MLB_DEFAULT_POOL :: "string list" where
  "MLB_DEFAULT_POOL = [
    ''Shohei Ohtani'', ''Aaron Judge'', ''Ronald Acuna Jr'',
    ''Mookie Betts'', ''Freddie Freeman'', ''Trea Turner'',
    ''Juan Soto'', ''Corey Seager'', ''Bobby Witt Jr'',
    ''Julio Rodriguez'', ''Corbin Carroll'', ''Gunnar Henderson'',
    ''Elly De La Cruz'', ''Marcus Semien'', ''Vladimir Guerrero Jr'',
    ''Spencer Strider'', ''Zack Wheeler'', ''Gerrit Cole'',
    ''Corbin Burnes'', ''Yoshinobu Yamamoto'', ''Dylan Cease'',
    ''Logan Webb'', ''Bryce Harper'', ''Matt Olson'',
    ''Pete Alonso'', ''Bo Bichette'', ''Jose Ramirez'',
    ''Kyle Tucker'', ''Adley Rutschman'', ''Jackson Chourio'']"

text \<open>\<open>position.split("/")[0] if position else "UTIL"\<close>; only a string has \<open>split\<close>.\<close>

definition pos_key_of :: "pyval \<Rightarrow> pyexc + string" where
  "pos_key_of pos =
     (if truthy pos then (case pos of PStr s \<Rightarrow> Inr (split_slash_first s) | _ \<Rightarrow> Inl AttributeError)
      else Inr ''UTIL'')"

definition count_roster_positions :: "string list \<Rightarrow> string \<Rightarrow> (string \<times> int) list" where
  "count_roster_positions roster_names sport = []"

text \<open>
  One pass of the loop over the available players, in three parts: the statistics and value
  of a player (\<open>None\<close> is \<open>continue\<close>), the adjusted value, and the entry appended to
  \<open>ranked\<close> together with the value appended to \<open>replacement_values\<close>.
\<close>

type_synonym valued = "pydict \<times> pyfloat \<times> pyfloat \<times> pyval"

definition nba_trend :: "(pyfloat list \<Rightarrow> pyfloat) \<Rightarrow> providers \<Rightarrow> pydict \<Rightarrow> pyexc + pyfloat" where
  "nba_trend float_sum P stats =
     (if truthy (dget stats ''player_id'' PNone)
      then compute_recent_trend float_sum stats
             (get_nba_player_game_log P (dget stats ''player_id'' PNone))
      else Inr (Fin 0))"

definition nba_player :: "(pyfloat list \<Rightarrow> pyfloat) \<Rightarrow> providers \<Rightarrow> string \<Rightarrow> pydict
    \<Rightarrow> pyexc + valued option" where
  "nba_player float_sum P scoring_format stats =
     (if stats = [] then Inr None
      else ebind (if scoring_format = ''points'' then compute_nba_points_value stats
                  else compute_nba_points_value stats) (\<lambda>v.
           ebind (nba_trend float_sum P stats) (\<lambda>trend.
             Inr (Some (stats, v, trend, dget stats ''position'' (PStr []))))))"

definition attach_spring :: "pydict \<Rightarrow> pydict \<Rightarrow> pydict" where
  "attach_spring spring stats =
     (if spring \<noteq> [] \<and> truthy (dget spring ''games'' PNone)
      then dset ''spring_training'' (PDict spring) stats else stats)"

definition mlb_valued :: "pydict \<Rightarrow> pydict \<Rightarrow> pyfloat \<Rightarrow> pyexc + valued option" where
  "mlb_valued spring stats v =
     Inr (Some (attach_spring spring stats, v, Fin 0,
                dget (attach_spring spring stats) ''position'' (PStr [])))"

definition mlb_player :: "pydict \<Rightarrow> pydict \<Rightarrow> pydict \<Rightarrow> pyexc + valued option" where
  "mlb_player hitting pitching spring =
     (if hitting = []
      then (if pitching = [] then Inr None
            else ebind (compute_mlb_pitching_value pitching) (mlb_valued spring pitching))
      else ebind (compute_mlb_hitting_value hitting) (mlb_valued spring hitting))"

definition player_stats :: "(pyfloat list \<Rightarrow> pyfloat) \<Rightarrow> providers \<Rightarrow> string \<Rightarrow> string \<Rightarrow> string
    \<Rightarrow> pyexc + valued option" where
  "player_stats float_sum P sport scoring_format player_name =
     (if sport = ''nba''
      then nba_player float_sum P scoring_format (get_nba_player_season_stats P player_name)
      else if sport = ''mlb''
      then mlb_player (get_mlb_player_stats P player_name ''hitting'')
             (get_mlb_player_stats P player_name ''pitching'')
             (get_mlb_spring_training_stats P player_name)
      else Inr None)"

definition live_bonus :: "providers \<Rightarrow> string \<Rightarrow> pyfloat" where
  "live_bonus P player_name =
     (case map_of (hot_players P) player_name of Some hp \<Rightarrow> r64 3 | None \<Rightarrow> Fin 0)"

definition live_note_of :: "providers \<Rightarrow> string \<Rightarrow> pyval" where
  "live_note_of P player_name =
     (case map_of (hot_players P) player_name of Some hp \<Rightarrow> dget hp ''note'' (PStr [])
      | None \<Rightarrow> PStr [])"

definition adjusted_value :: "pyfloat \<Rightarrow> pyfloat \<Rightarrow> pyfloat \<Rightarrow> pyfloat" where
  "adjusted_value v bonus trend =
     (if fgt trend (Fin 10) then fadd (fadd v bonus) (fmul trend (r64 (1 / 10)))
      else fadd v bonus)"

type_synonym board_state = "RankedPlayer list \<times> (string \<times> pyfloat list) list"

definition new_entry :: "providers \<Rightarrow> string \<Rightarrow> valued \<Rightarrow> bool \<times> string \<Rightarrow> RankedPlayer" where
  "new_entry P player_name r sl = (case r of (stats, v, trend, pos) \<Rightarrow>
     \<lparr> name = player_name, team = dget stats ''team'' (PStr []), position = pos,
       fantasy_value = adjusted_value v (live_bonus P player_name) trend, vor = Fin 0,
       season_stats = stats, recent_trend = trend, live_note = live_note_of P player_name,
       is_sleeper = fst sl, sleeper_reason = snd sl, recommendation = [] \<rparr>)"

definition add_player :: "providers \<Rightarrow> string \<Rightarrow> valued \<Rightarrow> board_state \<Rightarrow> pyexc + board_state" where
  "add_player P player_name r st = (case r of (stats, v, trend, pos) \<Rightarrow>
     ebind (pos_key_of pos) (\<lambda>pos_key.
     ebind (identify_sleeper stats trend v pos) (\<lambda>sl.
       Inr (fst st @ [new_entry P player_name r sl],
            dset pos_key (dget (snd st) pos_key [] @ [v]) (snd st)))))"

fun valuation_loop :: "(pyfloat list \<Rightarrow> pyfloat) \<Rightarrow> providers \<Rightarrow> string \<Rightarrow> string \<Rightarrow> string list
    \<Rightarrow> board_state \<Rightarrow> pyexc + board_state" where
  "valuation_loop float_sum P sport scoring_format [] st = Inr st"
| "valuation_loop float_sum P sport scoring_format (player_name # rest) st =
     ebind (player_stats float_sum P sport scoring_format player_name) (\<lambda>r.
       case r of None \<Rightarrow> valuation_loop float_sum P sport scoring_format rest st
       | Some x \<Rightarrow> ebind (add_player P player_name x st)
                     (valuation_loop float_sum P sport scoring_format rest))"

text \<open>
  Sorting.  \<open>sorted\<close> and \<open>list.sort\<close> compare with \<open><\<close> only and are stable; with
  \<open>reverse=True\<close> the list is reversed, sorted and reversed again, which keeps equal keys
  in their original order.  The model is the stable insertion sort; on keys that \<open><\<close>
  orders totally, which excludes NaN, every stable sort returns the same list.
\<close>

fun insort_by :: "('a \<Rightarrow> pyfloat) \<Rightarrow> 'a \<Rightarrow> 'a list \<Rightarrow> 'a list" where
  "insort_by key x [] = [x]"
| "insort_by key x (y # ys) =
     (if flt (key y) (key x) then y # insort_by key x ys else x # y # ys)"

definition py_sorted :: "('a \<Rightarrow> pyfloat) \<Rightarrow> 'a list \<Rightarrow> 'a list" where
  "py_sorted key xs = foldr (insort_by key) xs []"

definition py_sorted_rev :: "('a \<Rightarrow> pyfloat) \<Rightarrow> 'a list \<Rightarrow> 'a list" where
  "py_sorted_rev key xs = rev (py_sorted key (rev xs))"

text \<open>The replacement baseline of one position, and the dictionary \<open>repl\<close> of all of them.\<close>

definition replacement_level :: "(pyfloat list \<Rightarrow> pyfloat) \<Rightarrow> pyfloat list \<Rightarrow> pyexc + pyfloat" where
  "replacement_level float_sum vals =
     (if 12 \<le> length vals
      then fdiv (float_sum (take 5 (drop 7 (py_sorted_rev (\<lambda>v. v) vals)))) (Fin 5)
      else if 3 \<le> length vals then Inr (last (py_sorted_rev (\<lambda>v. v) vals))
      else Inr (Fin 0))"

fun replacement_table :: "(pyfloat list \<Rightarrow> pyfloat) \<Rightarrow> (string \<times> pyfloat list) list
    \<Rightarrow> pyexc + (string \<times> pyfloat) list" where
  "replacement_table float_sum [] = Inr []"
| "replacement_table float_sum ((pos, vals) # rest) =
     ebind (replacement_level float_sum vals) (\<lambda>b.
     ebind (replacement_table float_sum rest) (\<lambda>t. Inr ((pos, b) # t)))"

fun apply_vor :: "(string \<times> pyfloat) list \<Rightarrow> RankedPlayer list \<Rightarrow> pyexc + RankedPlayer list" where
  "apply_vor repl [] = Inr []"
| "apply_vor repl (rp # rps) =
     ebind (pos_key_of (position rp)) (\<lambda>pos_key.
     ebind (apply_vor repl rps) (\<lambda>r.
       Inr (rp\<lparr>vor := compute_vor (fantasy_value rp) pos_key repl\<rparr> # r)))"

definition boost :: "(string \<times> int) list \<Rightarrow> string \<Rightarrow> RankedPlayer \<Rightarrow> RankedPlayer" where
  "boost roster_positions pos_key rp =
     (if dget roster_positions pos_key 0 = 0
      then rp\<lparr>vor := fadd (vor rp) (r64 2), recommendation := ''fills '' @ pos_key @ '' need''\<rparr>
      else rp)"

fun need_boost :: "(string \<times> int) list \<Rightarrow> RankedPlayer list \<Rightarrow> pyexc + RankedPlayer list" where
  "need_boost roster_positions [] = Inr []"
| "need_boost roster_positions (rp # rps) =
     ebind (pos_key_of (position rp)) (\<lambda>pos_key.
     ebind (need_boost roster_positions rps) (\<lambda>r.
       Inr (boost roster_positions pos_key rp # r)))"

fun best_available :: "RankedPlayer list \<Rightarrow> RankedPlayer list" where
  "best_available [] = []"
| "best_available (rp # rps) =
     (if recommendation rp = [] then rp\<lparr>recommendation := ''BEST AVAILABLE''\<rparr> # rps
      else rp # rps)"

definition available_players :: "string \<Rightarrow> string list \<Rightarrow> string list" where
  "available_players sport drafted_names =
     filter (\<lambda>n. py_lower n \<notin> set (map py_lower drafted_names))
       (if sport = ''nba'' then NBA_DEFAULT_POOL else MLB_DEFAULT_POOL)"

text \<open>
  The stages of \<open>build_draft_board\<close>: the valuation loop, the replacement baselines, the
  value over replacement with the positional-need boost, and the sort with the tag of the
  top entry.
\<close>

definition valued_pool :: "(pyfloat list \<Rightarrow> pyfloat) \<Rightarrow> providers \<Rightarrow> string \<Rightarrow> string \<Rightarrow> string list
    \<Rightarrow> pyexc + board_state" where
  "valued_pool float_sum P sport scoring_format drafted_names =
     valuation_loop float_sum P sport scoring_format (available_players sport drafted_names)
       ([], [])"

definition boosted :: "(pyfloat list \<Rightarrow> pyfloat) \<Rightarrow> string list \<Rightarrow> string \<Rightarrow> board_state
    \<Rightarrow> pyexc + RankedPlayer list" where
  "boosted float_sum roster sport st =
     ebind (replacement_table float_sum (snd st)) (\<lambda>repl.
     ebind (apply_vor repl (fst st)) (need_boost (count_roster_positions roster sport)))"

definition build_draft_board :: "(pyfloat list \<Rightarrow> pyfloat) \<Rightarrow> providers \<Rightarrow> string \<Rightarrow> string
    \<Rightarrow> string list \<Rightarrow> string list \<Rightarrow> pyexc + RankedPlayer list" where
  "build_draft_board float_sum P sport scoring_format drafted_names roster =
     ebind (valued_pool float_sum P sport scoring_format drafted_names) (\<lambda>st.
     ebind (boosted float_sum roster sport st) (\<lambda>ranked.
       Inr (best_available (py_sorted_rev vor ranked))))"

section \<open>The statements of the specification\<close>

text \<open>
  Definitions that follow the words of the specification, to be compared with the functions
  above, and the inputs of its examples.
\<close>

text \<open>A field is present and a valid number when \<open>float\<close> converts its value.\<close>

definition valid_number :: "pydict \<Rightarrow> string \<Rightarrow> pyfloat \<Rightarrow> bool" where
  "valid_number stats k x = (\<exists>v. map_of stats k = Some v \<and> py_float v = Inr x)"

text \<open>The basketball points model: the weighted linear sum, rounded to one decimal.\<close>

definition nba_points_formula :: "pyfloat \<Rightarrow> pyfloat \<Rightarrow> pyfloat \<Rightarrow> pyfloat \<Rightarrow> pyfloat \<Rightarrow> pyfloat \<Rightarrow> pyfloat \<Rightarrow> pyfloat" where
  "nba_points_formula pts reb ast stl blk fg3m tov =
     round1 (fadd (fadd (fadd (fadd (fadd (fadd
       (fmul pts (r64 1)) (fmul reb (r64 (12 / 10)))) (fmul ast (r64 (15 / 10))))
       (fmul stl (r64 3))) (fmul blk (r64 3))) (fmul fg3m (r64 (5 / 10)))) (fmul tov (r64 (- 1))))"

definition nba_example :: pydict where
  "nba_example = [(''pts'', PFloat (Fin 25)), (''reb'', PFloat (Fin 7)), (''ast'', PFloat (Fin 8)),
     (''stl'', PFloat (Fin (3 / 2))), (''blk'', PFloat (Fin (1 / 2))), (''fg3m'', PFloat (Fin 2)),
     (''tov'', PFloat (Fin 3))]"

text \<open>
  What a record gives for a counting field: \<open>_safe_float(stats.get(k, 0))\<close> returns \<open>x\<close>,
  which is 0 for a field that is absent or no number.  The call returns for every value but
  an integer beyond the float range (\<open>safe_float_error\<close>), where \<open>float\<close> raises
  \<open>OverflowError\<close>.
\<close>

definition reads :: "pydict \<Rightarrow> string \<Rightarrow> pyfloat \<Rightarrow> bool" where
  "reads stats k x = (safe_float (dget stats k (PInt 0)) = Inr x)"

text \<open>The baseball hitting model; \<open>avg\<close> is the parsed batting average.\<close>

definition hitting_formula :: "pyfloat \<Rightarrow> pyfloat \<Rightarrow> pyfloat \<Rightarrow> pyfloat \<Rightarrow> pyfloat \<Rightarrow> pyfloat" where
  "hitting_formula r hr rbi sb avg =
     round1 (let base = fadd (fadd (fadd (fmul r (r64 1)) (fmul hr (r64 4))) (fmul rbi (r64 1)))
                          (fmul sb (r64 2))
             in if fgt avg (r64 (270 / 1000))
                then fadd base (fmul (fmul (fsub avg (r64 (270 / 1000))) (Fin 1000)) (r64 5))
                else base)"

definition hitting_example :: pydict where
  "hitting_example = [(''runs'', PInt 100), (''hr'', PInt 40), (''rbi'', PInt 110),
     (''sb'', PInt 10), (''avg'', PStr ''.300'')]"

definition hitting_none_avg :: pydict where
  "hitting_none_avg = [(''runs'', PInt 100), (''hr'', PInt 40), (''rbi'', PInt 110),
     (''sb'', PInt 10), (''avg'', PNone)]"








definition trend_season :: pydict where
  "trend_season = [(''pts'', PFloat (Fin 20))]"

definition trend_log :: "pydict list" where
  "trend_log = [[(''pts'', PInt 25)], [(''pts'', PInt 27)], [(''pts'', PInt 24)]]"

text \<open>The conditions of the first three sleeper rules and the reasons they give.\<close>

definition trend_rule :: "pyfloat \<Rightarrow> pyfloat \<Rightarrow> bool" where
  "trend_rule trend v = (fge trend (r64 15) \<and> fgt v (Fin 20))"

definition blocks_rule :: "pydict \<Rightarrow> pyfloat \<Rightarrow> pyval \<Rightarrow> bool" where
  "blocks_rule stats trend pos =
     (pos \<in> {PStr ''C'', PStr ''PF''} \<and> (\<exists>b. reads stats ''blk'' b \<and> fge b (r64 2))
      \<and> fge trend (Fin 5))"

definition steals_rule :: "pydict \<Rightarrow> pyfloat \<Rightarrow> pyval \<Rightarrow> bool" where
  "steals_rule stats trend pos =
     (pos \<in> {PStr ''PG'', PStr ''SG''} \<and> (\<exists>s. reads stats ''stl'' s \<and> fge s (r64 (18 / 10)))
      \<and> fge trend (Fin 5))"

definition trend_reason :: "pyfloat \<Rightarrow> string" where
  "trend_reason trend = ''Trending +'' @ fmt_f0 trend @ ''% over last 10 games''"

definition blocks_reason :: "pyfloat \<Rightarrow> string" where
  "blocks_reason b = ''Elite blocks ('' @ fmt_f1 b @ ''/g) with upward trend''"

definition steals_reason :: "pyfloat \<Rightarrow> string" where
  "steals_reason s = ''Elite steals ('' @ fmt_f1 s @ ''/g) with upward trend''"

definition sleeper_both :: pydict where
  "sleeper_both = [(''blk'', PFloat (Fin (5 / 2)))]"

text \<open>
  The replacement baseline: the mean of five values, the minimum of a list, and a list of
  twelve values in no order.
\<close>

definition mean5 :: "(pyfloat list \<Rightarrow> pyfloat) \<Rightarrow> pyfloat list \<Rightarrow> pyfloat" where
  "mean5 float_sum xs = fquot (float_sum xs) (Fin 5)"

definition is_minimum :: "pyfloat \<Rightarrow> pyfloat list \<Rightarrow> bool" where
  "is_minimum m vals = (m \<in> set vals \<and> (\<forall>v\<in>set vals. fle m v))"

definition twelve_values :: "pyfloat list" where
  "twelve_values = [Fin 3, Fin 1, Fin 2, Fin 12, Fin 11, Fin 10, Fin 9, Fin 8, Fin 7, Fin 6,
     Fin 5, Fin 4]"

text \<open>
  What the builder does to an entry between the valuation loop and the sort: the value over
  replacement with the positional-need bonus, and the tag.
\<close>

definition boosted_entry :: "(string \<times> pyfloat) list \<Rightarrow> RankedPlayer \<Rightarrow> RankedPlayer \<Rightarrow> bool" where
  "boosted_entry repl rp rp' = (\<exists>k. pos_key_of (position rp) = Inr k \<and>
     rp' = rp\<lparr>vor := fadd (compute_vor (fantasy_value rp) k repl) (r64 2),
              recommendation := ''fills '' @ k @ '' need''\<rparr>)"

text \<open>
  Example runs of the builder: a basketball provider that knows three players, one that
  reports a NaN for the first player, no game logs and no live context; the columns of a
  returned board.  The runs take the compensated sum; no sum is computed in them.
\<close>

definition quiet_providers :: "(string \<Rightarrow> pydict) \<Rightarrow> providers" where
  "quiet_providers nba =
     \<lparr> get_nba_player_season_stats = nba, get_nba_player_game_log = (\<lambda>player_id. []),
       get_mlb_player_stats = (\<lambda>player_name stat_group. []),
       get_mlb_spring_training_stats = (\<lambda>player_name. []), hot_players = [] \<rparr>"

definition plain_stats :: "string \<Rightarrow> pydict" where
  "plain_stats player_name =
     (if player_name = ''Nikola Jokic''
      then [(''player_id'', PInt 1), (''position'', PStr ''C''), (''pts'', PInt 20)]
      else if player_name = ''Luka Doncic''
      then [(''player_id'', PInt 2), (''position'', PStr ''PG''), (''pts'', PInt 30)]
      else if player_name = ''Jayson Tatum''
      then [(''player_id'', PInt 3), (''position'', PStr ''SF/PF''), (''pts'', PInt 20)]
      else [])"

definition nan_stats :: "string \<Rightarrow> pydict" where
  "nan_stats player_name =
     (if player_name = ''Nikola Jokic''
      then [(''player_id'', PInt 1), (''position'', PStr ''C''), (''pts'', PFloat NaN)]
      else if player_name = ''Luka Doncic''
      then [(''player_id'', PInt 2), (''position'', PStr ''PG''), (''pts'', PInt 20)]
      else [])"

definition board_rows :: "pyexc + RankedPlayer list
    \<Rightarrow> pyexc + (string \<times> pyfloat \<times> string) list" where
  "board_rows r = map_sum id (map (\<lambda>rp. (name rp, vor rp, recommendation rp))) r"

definition plain_ranked :: "RankedPlayer list" where
  "plain_ranked =
     (case build_draft_board neumaier_sum (quiet_providers plain_stats) ''nba'' ''points'' [] [] of
        Inr b \<Rightarrow> b | Inl e \<Rightarrow> [])"

section \<open>Properties of the float model\<close>

subsection \<open>Evaluation on literals\<close>

lemma bitlen_numeral: "bitlen (numeral k) = bitlen (numeral k div 2) + 1"
  by (subst compute_bitlen) simp

lemma bitlen_one: "bitlen 1 = 1"
  by (subst compute_bitlen) simp

lemma show_nat_numeral:
  "show_nat (numeral k) =
     (if (numeral k :: nat) < 10 then [digit_char (numeral k)]
      else show_nat (numeral k div 10) @ [digit_char (numeral k mod 10)])"
  by (subst show_nat.simps) simp

lemma show_nat_small: "show_nat 0 = ''0''" "show_nat 1 = ''1''" "show_nat (Suc 0) = ''1''"
  by (simp_all add: show_nat.simps digit_char_def)

lemmas float_eval = r64_def r64_pack_def r64_mag_def ilog2_def pow2_def rnd_even_def rnd_pick_def
  bitlen_numeral bitlen_one fsub_def fdiv_def fle_def fge_def fgt_def fsign_def finf_def

lemmas string_eval = is_space_def is_digit_def digit_val_def lower_char_def py_lower_def
  py_strip_def lstrip_dot_def split_slash_first_def pow10_def signed_digits_def
  decimal_value_def parse_decimal_def parse_signed_def float_of_string_def
  show_nat_numeral show_nat_small digit_char_def

lemmas scoring_eval = dget_def float_or_def safe_float_def NBA_POINTS_WEIGHTS_def
  compute_nba_points_value_def MLB_HITTING_WEIGHTS_def MLB_PITCHING_WEIGHTS_def batting_avg_def
  avg_bonus_def compute_mlb_hitting_value_def penalty_def pitching_base_def
  compute_mlb_pitching_value_def trend_of_def compute_recent_trend_def str_of_def
  spring_rule_def position_rules_def identify_sleeper_def compute_vor_def

lemmas board_eval = NBA_DEFAULT_POOL_def MLB_DEFAULT_POOL_def pos_key_of_def
  count_roster_positions_def nba_trend_def nba_player_def attach_spring_def mlb_valued_def
  mlb_player_def player_stats_def live_bonus_def live_note_of_def adjusted_value_def
  new_entry_def add_player_def py_sorted_def py_sorted_rev_def plain_sum_def neumaier_step_def neumaier_finish_def
  replacement_level_def
  boost_def available_players_def valued_pool_def boosted_def build_draft_board_def

subsection \<open>The binary exponent\<close>

lemma pow2_powi: "pow2 e = 2 powi e"
  by (simp add: pow2_def power_int_def field_simps)

lemma pow2_pos [simp]: "0 < pow2 e"
  by (simp add: pow2_powi)

lemma pow2_nz [simp]: "pow2 e \<noteq> 0"
  using pow2_pos[of e] by linarith

lemma pow2_ge0 [simp]: "0 \<le> pow2 e"
  using pow2_pos[of e] by linarith

lemma pow2_add: "pow2 (a + b) = pow2 a * pow2 b"
  by (simp add: pow2_powi power_int_add)

lemma pow2_mono: "a \<le> b \<Longrightarrow> pow2 a \<le> pow2 b"
  by (simp add: pow2_powi power_int_increasing)

lemma pow2_strict_mono: "a < b \<Longrightarrow> pow2 a < pow2 b"
  by (simp add: pow2_powi power_int_strict_increasing)

lemma pow2_nat: "0 \<le> e \<Longrightarrow> pow2 e = 2 ^ nat e"
  by (simp add: pow2_def)

lemma pow2_neg: "0 \<le> k \<Longrightarrow> pow2 (- k) = 1 / 2 ^ nat k"
  by (cases "k = 0") (simp_all add: pow2_def)

lemma ilog2_bounds:
  assumes "0 < a"
  shows "pow2 (ilog2 a) \<le> a \<and> a < pow2 (ilog2 a + 1)"
proof (cases "1 \<le> a")
  case True
  define n where "n = \<lfloor>a\<rfloor>"
  have n: "0 < n" using True by (simp add: n_def)
  from bitlen_bounds[OF n] have lo: "2 ^ nat (bitlen n - 1) \<le> n" and hi: "n < 2 ^ nat (bitlen n)"
    by auto
  have b1: "1 \<le> bitlen n" using n by (simp add: bitlen_alt_def)
  have e: "ilog2 a = bitlen n - 1" using True by (simp add: ilog2_def n_def)
  have "pow2 (bitlen n - 1) = 2 ^ nat (bitlen n - 1)" using b1 by (simp add: pow2_nat)
  also have "\<dots> \<le> of_int n" using lo by (metis of_int_le_iff of_int_numeral of_int_power)
  also have "\<dots> \<le> a" by (simp add: n_def)
  finally have A: "pow2 (ilog2 a) \<le> a" by (simp add: e)
  have "n + 1 \<le> 2 ^ nat (bitlen n)" using hi by simp
  then have "of_int (n + 1) \<le> (2::real) ^ nat (bitlen n)"
    by (metis of_int_le_iff of_int_numeral of_int_power)
  moreover have "a < of_int (n + 1)" by (simp add: n_def)
  moreover have "pow2 (bitlen n - 1 + 1) = 2 ^ nat (bitlen n)" using b1 by (simp add: pow2_nat)
  ultimately have "a < pow2 (ilog2 a + 1)" by (simp add: e)
  with A show ?thesis by simp
next
  case False
  define m where "m = \<lceil>1 / a\<rceil>"
  define k where "k = bitlen (m - 1)"
  have inv: "1 < 1 / a" using False assms by simp
  then have m2: "2 \<le> m" unfolding m_def by linarith
  then have m1: "0 < m - 1" by simp
  from bitlen_bounds[OF m1] have lo: "2 ^ nat (k - 1) \<le> m - 1" and hi: "m - 1 < 2 ^ nat k"
    by (auto simp: k_def)
  have k1: "1 \<le> k" using m1 by (simp add: k_def bitlen_alt_def)
  have e: "ilog2 a = - k" using False by (simp add: ilog2_def k_def m_def)
  have "m \<le> 2 ^ nat k" using hi by simp
  then have "of_int m \<le> (2::real) ^ nat k" by (metis of_int_le_iff of_int_numeral of_int_power)
  moreover have "1 / a \<le> of_int m" by (simp add: m_def)
  ultimately have "1 / a \<le> 2 ^ nat k" by linarith
  then have "1 / 2 ^ nat k \<le> a" using assms by (simp add: field_simps)
  then have A: "pow2 (ilog2 a) \<le> a" using k1 by (simp add: e pow2_neg)
  have "(2::real) ^ nat (k - 1) \<le> of_int (m - 1)"
    using lo by (metis of_int_le_iff of_int_numeral of_int_power)
  moreover have "of_int (m - 1) < 1 / a" unfolding m_def by linarith
  ultimately have "2 ^ nat (k - 1) < 1 / a" by linarith
  then have "a < 1 / 2 ^ nat (k - 1)" using assms by (simp add: field_simps)
  moreover have "pow2 (- k + 1) = 1 / 2 ^ nat (k - 1)"
    using pow2_neg[of "k - 1"] k1 by simp
  ultimately have "a < pow2 (ilog2 a + 1)" by (simp add: e)
  with A show ?thesis by simp
qed

lemma ilog2_unique:
  assumes "0 < a" "pow2 e \<le> a" "a < pow2 (e + 1)"
  shows "ilog2 a = e"
proof -
  from ilog2_bounds[OF assms(1)] have b: "pow2 (ilog2 a) \<le> a" "a < pow2 (ilog2 a + 1)" by auto
  have "pow2 e < pow2 (ilog2 a + 1)" using assms(2) b(2) by linarith
  then have "e < ilog2 a + 1" using pow2_mono[of "ilog2 a + 1" e] by (cases "e < ilog2 a + 1") auto
  moreover have "pow2 (ilog2 a) < pow2 (e + 1)" using assms(3) b(1) by linarith
  then have "ilog2 a < e + 1" using pow2_mono[of "e + 1" "ilog2 a"] by (cases "ilog2 a < e + 1") auto
  ultimately show ?thesis by simp
qed

lemma pow2_split53: "pow2 (e + 1) = 2 ^ 53 * pow2 (e - 52)"
proof -
  have "pow2 (53 + (e - 52)) = pow2 53 * pow2 (e - 52)" by (rule pow2_add)
  moreover have "53 + (e - 52) = e + 1" by simp
  moreover have "pow2 53 = 2 ^ 53" by (simp add: pow2_def)
  ultimately show ?thesis by simp
qed

lemma pow2_split52: "pow2 e = 2 ^ 52 * pow2 (e - 52)"
proof -
  have "pow2 (52 + (e - 52)) = pow2 52 * pow2 (e - 52)" by (rule pow2_add)
  moreover have "52 + (e - 52) = e" by simp
  moreover have "pow2 52 = 2 ^ 52" by (simp add: pow2_def)
  ultimately show ?thesis by simp
qed

subsection \<open>Rounding is the identity on a float\<close>

lemma rnd_even_of_int [simp]: "rnd_even (of_int k) = k"
  by (simp add: rnd_even_def rnd_pick_def)

lemma rnd_even_ge: "of_int k \<le> x \<Longrightarrow> k \<le> rnd_even x"
  unfolding rnd_even_def rnd_pick_def by (auto simp: le_floor_iff) linarith+

lemma rnd_even_le: "x \<le> of_int k \<Longrightarrow> rnd_even x \<le> k"
proof -
  assume a: "x \<le> of_int k"
  then have f: "\<lfloor>x\<rfloor> \<le> k" by (simp add: floor_le_iff) 
  show ?thesis
  proof (cases "\<lfloor>x\<rfloor> = k")
    case True
    then have "x = of_int k" using a by (metis of_int_floor_le order_antisym)
    then show ?thesis by simp
  next
    case False
    then have "\<lfloor>x\<rfloor> + 1 \<le> k" using f by simp
    then show ?thesis unfolding rnd_even_def rnd_pick_def by auto
  qed
qed

lemma r64_minus: "r64 (- x) = fneg (r64 x)"
  by (auto simp: r64_def r64_pack_def)

lemma r64_mag_exact:
  assumes "m / pow2 (e - 52) = of_int k"
  shows "r64_mag m e = m"
proof -
  have "m = of_int k * pow2 (e - 52)" using assms by (simp add: field_simps)
  then show ?thesis using assms by (simp add: r64_mag_def)
qed

lemma r64_mag_fixed:
  assumes a: "0 < a" and e: "e = max (ilog2 a) (- 1022)" and m: "m = r64_mag a e" and pos: "0 < m"
  shows "r64_mag m (max (ilog2 m) (- 1022)) = m"
proof -
  define u where "u = pow2 (e - 52)"
  define n where "n = rnd_even (a / u)"
  have u: "0 < u" by (simp add: u_def)
  have mn: "m = of_int n * u" by (simp add: m r64_mag_def n_def u_def)
  have up: "a < pow2 (e + 1)"
  proof -
    have "a < pow2 (ilog2 a + 1)" using ilog2_bounds[OF a] by simp
    also have "\<dots> \<le> pow2 (e + 1)" by (rule pow2_mono) (simp add: e)
    finally show ?thesis .
  qed
  have "a < 2 ^ 53 * u" using up pow2_split53[of e] by (simp add: u_def)
  then have "a / u \<le> of_int (2 ^ 53)" using u by (simp add: field_simps)
  then have n_hi: "n \<le> 2 ^ 53" unfolding n_def by (rule rnd_even_le)
  then have "of_int n \<le> (2::real) ^ 53" by (metis of_int_le_iff of_int_numeral of_int_power)
  then have "m \<le> 2 ^ 53 * u" using u by (simp add: mn)
  then have m_hi: "m \<le> pow2 (e + 1)" using pow2_split53[of e] by (simp add: u_def)
  define e' where "e' = max (ilog2 m) (- 1022)"
  have bm: "pow2 (ilog2 m) \<le> m" "m < pow2 (ilog2 m + 1)" using ilog2_bounds[OF pos] by auto
  have "pow2 (ilog2 m) \<le> pow2 (e + 1)" using bm(1) m_hi by linarith
  then have il_hi: "ilog2 m \<le> e + 1"
    using pow2_strict_mono[of "e + 1" "ilog2 m"] by (cases "ilog2 m \<le> e + 1") auto
  have e_lo: "- 1022 \<le> e" by (simp add: e)
  have e'_hi: "e' \<le> e + 1" using il_hi e_lo by (simp add: e'_def)
  have e'_lo: "e \<le> e'"
  proof (cases "- 1022 \<le> ilog2 a")
    case True
    then have ea: "e = ilog2 a" by (simp add: e)
    have "pow2 e \<le> a" using ilog2_bounds[OF a] by (simp add: ea)
    then have "2 ^ 52 * u \<le> a" using pow2_split52[of e] by (simp add: u_def)
    then have "of_int (2 ^ 52) \<le> a / u" using u by (simp add: field_simps)
    then have "2 ^ 52 \<le> n" unfolding n_def by (rule rnd_even_ge)
    then have "(2::real) ^ 52 \<le> of_int n" by (metis of_int_le_iff of_int_numeral of_int_power)
    then have "2 ^ 52 * u \<le> m" using u by (simp add: mn)
    then have "pow2 e \<le> m" using pow2_split52[of e] by (simp add: u_def)
    then have "pow2 e < pow2 (ilog2 m + 1)" using bm(2) by linarith
    then have "e < ilog2 m + 1"
      using pow2_mono[of "ilog2 m + 1" e] by (cases "e < ilog2 m + 1") auto
    then show ?thesis by (simp add: e'_def)
  next
    case False
    then have "e = - 1022" by (simp add: e)
    then show ?thesis by (simp add: e'_def)
  qed
  show ?thesis
  proof (cases "e' = e")
    case True
    have "m / pow2 (e' - 52) = of_int n" using u by (simp add: True mn u_def)
    then show ?thesis unfolding e'_def[symmetric] by (rule r64_mag_exact)
  next
    case False
    then have e'1: "e' = e + 1" using e'_lo e'_hi by simp
    then have "e' = ilog2 m" using e_lo by (simp add: e'_def max_def split: if_splits)
    then have "pow2 (e + 1) \<le> m" using bm(1) e'1 by simp
    then have "m = pow2 (e + 1)" using m_hi by simp
    moreover have "pow2 e' = 2 ^ 52 * pow2 (e' - 52)" by (rule pow2_split52)
    ultimately have "m / pow2 (e' - 52) = of_int (2 ^ 52)" by (simp add: e'1)
    then show ?thesis unfolding e'_def[symmetric] by (rule r64_mag_exact)
  qed
qed

lemma r64_mag_nonneg: "0 \<le> a \<Longrightarrow> 0 \<le> r64_mag a e"
proof -
  assume "0 \<le> a"
  then have "of_int 0 \<le> a / pow2 (e - 52)" by simp
  then have "0 \<le> rnd_even (a / pow2 (e - 52))" by (rule rnd_even_ge)
  then show ?thesis by (simp add: r64_mag_def)
qed

lemma r64_idem_pos:
  assumes "0 < x" "r64 x = Fin y"
  shows "r64 y = Fin y"
proof -
  define e where "e = max (ilog2 x) (- 1022)"
  define m where "m = r64_mag x e"
  have pk: "r64_pack x m = Fin y" using assms by (simp add: r64_def m_def e_def)
  then have lt: "\<not> pow2 1024 \<le> m" and y: "y = m"
    using assms(1) by (auto simp: r64_pack_def split: if_splits)
  have m0: "0 \<le> m" unfolding m_def using assms(1) by (intro r64_mag_nonneg) simp
  show ?thesis
  proof (cases "m = 0")
    case True
    then show ?thesis by (simp add: y r64_def)
  next
    case False
    then have pos: "0 < m" using m0 by simp
    have "r64_mag m (max (ilog2 m) (- 1022)) = m"
      using assms(1) e_def m_def pos by (rule r64_mag_fixed)
    then show ?thesis using pos lt by (simp add: y r64_def r64_pack_def)
  qed
qed

lemma r64_idem: "r64 x = Fin y \<Longrightarrow> r64 y = Fin y"
proof -
  assume a: "r64 x = Fin y"
  consider "x = 0" | "0 < x" | "x < 0" by linarith
  then show ?thesis
  proof cases
    case 1
    then show ?thesis using a by (auto simp: r64_def)
  next
    case 2
    then show ?thesis using a by (rule r64_idem_pos)
  next
    case 3
    have "r64 (- x) = Fin (- y)" using a by (simp add: r64_minus)
    then have "r64 (- y) = Fin (- y)" using 3 r64_idem_pos[of "- x" "- y"] by simp
    then have "fneg (r64 y) = Fin (- y)" by (simp add: r64_minus)
    then show ?thesis by (cases "r64 y") auto
  qed
qed

subsection \<open>Closure and neutral elements\<close>

lemma is_double_r64 [simp]: "is_double (r64 x)"
  by (auto simp: is_double_def dest: r64_idem split: pyfloat.splits)

lemma is_double_special [simp]: "is_double NaN" "is_double PInf" "is_double NInf"
  by (simp_all add: is_double_def)

lemma is_double_finf [simp]: "is_double (finf s)"
  by (simp add: finf_def)

lemma is_double_fmul [simp]: "is_double (fmul a b)"
  by (cases a; cases b) simp_all

lemma is_double_fadd [simp]: "is_double (fadd a b)"
  by (cases a; cases b) simp_all

lemma fadd_zero_left: "is_double v \<Longrightarrow> fadd (Fin 0) v = v"
  by (cases v) (simp_all add: is_double_def)

lemma safe_float_valid: "valid_number stats k x \<Longrightarrow> safe_float (dget stats k d) = Inr x"
  by (auto simp: valid_number_def safe_float_def float_or_def dget_def)

lemma valid_number_nonempty: "valid_number stats k x \<Longrightarrow> stats \<noteq> []"
  by (auto simp: valid_number_def)

lemma fsub_zero_right: "is_double v \<Longrightarrow> fsub v (Fin 0) = v"
  by (cases v) (simp_all add: is_double_def fsub_def)







subsection \<open>No rounding to zero above the subnormal range\<close>




section \<open>Helper lemmas on the scoring functions\<close>







lemma hitting_sum_reads:
  assumes "reads stats ''runs'' r" "reads stats ''hr'' hr" "reads stats ''rbi'' rbi"
    "reads stats ''sb'' sb"
  shows "hitting_sum stats [''runs'', ''hr'', ''rbi'', ''sb''] (Fin 0) =
     Inr (fadd (fadd (fadd (fmul r (r64 1)) (fmul hr (r64 4))) (fmul rbi (r64 1))) (fmul sb (r64 2)))"
  using assms
  by (simp add: reads_def MLB_HITTING_WEIGHTS_def dget_def[of "_ # _"] fadd_zero_left)

lemma hitting_value_formula:
  assumes "stats \<noteq> []" "reads stats ''runs'' r" "reads stats ''hr'' hr" "reads stats ''rbi'' rbi"
    "reads stats ''sb'' sb"
    and "batting_avg (dget stats ''avg'' (PStr ''.250'')) ''250'' (r64 (250 / 1000)) = Inr avg"
  shows "compute_mlb_hitting_value stats = Inr (hitting_formula r hr rbi sb avg)"
proof -
  have w: "dget MLB_HITTING_WEIGHTS ''avg_bonus'' (Fin 0) = r64 5"
    by (simp add: MLB_HITTING_WEIGHTS_def dget_def)
  show ?thesis
    unfolding compute_mlb_hitting_value_def hitting_sum_reads[OF assms(2-5)]
    using assms(1,6) by (simp add: hitting_formula_def avg_bonus_def w)
qed

lemma hitting_value_example: "compute_mlb_hitting_value hitting_example = Inr (r64 540)"
  by (simp add: hitting_example_def float_eval string_eval scoring_eval)

lemma batting_avg_malformed_string:
  "float_of_string (if lstrip_dot s = [] then fallback else lstrip_dot s) = None \<Longrightarrow>
   batting_avg (PStr s) fallback dflt = Inr dflt"
  by (simp add: batting_avg_def)



lemma recent_trend_example_plain_sum:
  "compute_recent_trend plain_sum trend_season trend_log = Inr (r64 (267 / 10))"
  by (simp add: trend_season_def trend_log_def plain_sum_def float_eval string_eval scoring_eval)

lemma recent_trend_example_neumaier_sum:
  "compute_recent_trend neumaier_sum trend_season trend_log = Inr (r64 (267 / 10))"
  by (simp add: trend_season_def trend_log_def neumaier_step_def neumaier_finish_def float_eval
      string_eval scoring_eval)



section \<open>Helper lemmas on sorting and on the builder\<close>

subsection \<open>The order of the floats without NaN\<close>

lemma flt_irrefl: "\<not> flt a a"
  by (cases a) simp_all

lemma flt_asym: "flt a b \<Longrightarrow> \<not> flt b a"
  by (cases a; cases b) simp_all

lemma not_flt_trans:
  "a \<noteq> NaN \<Longrightarrow> b \<noteq> NaN \<Longrightarrow> c \<noteq> NaN \<Longrightarrow> \<not> flt b a \<Longrightarrow> \<not> flt c b \<Longrightarrow> \<not> flt c a"
  by (cases a; cases b; cases c) simp_all

lemma fge_iff_not_flt: "a \<noteq> NaN \<Longrightarrow> b \<noteq> NaN \<Longrightarrow> fge a b \<longleftrightarrow> \<not> flt a b"
  by (cases a; cases b) (auto simp: fge_def fle_def)

lemma fle_iff_not_flt: "a \<noteq> NaN \<Longrightarrow> b \<noteq> NaN \<Longrightarrow> fle a b \<longleftrightarrow> \<not> flt b a"
  by (cases a; cases b) (auto simp: fle_def)

lemma fle_refl: "a \<noteq> NaN \<Longrightarrow> fle a a"
  by (cases a) (simp_all add: fle_def)

subsection \<open>The stable sort\<close>

lemma mset_insort_by: "mset (insort_by key x ys) = add_mset x (mset ys)"
  by (induction ys) auto

lemma mset_py_sorted: "mset (py_sorted key xs) = mset xs"
  by (induction xs) (auto simp: py_sorted_def mset_insort_by)

lemma mset_py_sorted_rev: "mset (py_sorted_rev key xs) = mset xs"
  by (simp add: py_sorted_rev_def mset_py_sorted)

lemma set_py_sorted_rev: "set (py_sorted_rev key xs) = set xs"
  using mset_py_sorted_rev[of key xs] by (metis set_mset_mset)

lemma length_py_sorted_rev: "length (py_sorted_rev key xs) = length xs"
  using mset_py_sorted_rev[of key xs] by (metis size_mset)

lemma set_insort_by: "set (insort_by key x ys) = insert x (set ys)"
  using mset_insort_by[of key x ys] by (metis set_mset_add_mset_insert set_mset_mset)

lemma set_py_sorted: "set (py_sorted key xs) = set xs"
  using mset_py_sorted[of key xs] by (metis set_mset_mset)

lemma sorted_insort_by:
  assumes "key x \<noteq> NaN" "\<forall>y\<in>set ys. key y \<noteq> NaN"
    and "sorted_wrt (\<lambda>a b. \<not> flt (key b) (key a)) ys"
  shows "sorted_wrt (\<lambda>a b. \<not> flt (key b) (key a)) (insort_by key x ys)"
  using assms
proof (induction ys)
  case Nil
  then show ?case by simp
next
  case (Cons y ys)
  show ?case
  proof (cases "flt (key y) (key x)")
    case True
    then have "\<not> flt (key x) (key y)" by (rule flt_asym)
    then show ?thesis using True Cons by (auto simp: set_insort_by)
  next
    case False
    have "\<not> flt (key z) (key x)" if "z \<in> set ys" for z
    proof -
      have "\<not> flt (key z) (key y)" using Cons.prems(3) that by simp
      with False show ?thesis
        using Cons.prems(1,2) that not_flt_trans[of "key x" "key y" "key z"] by auto
    qed
    then show ?thesis using False Cons.prems(3) by auto
  qed
qed

lemma sorted_py_sorted:
  "\<forall>y\<in>set xs. key y \<noteq> NaN \<Longrightarrow> sorted_wrt (\<lambda>a b. \<not> flt (key b) (key a)) (py_sorted key xs)"
proof (induction xs)
  case Nil
  then show ?case by (simp add: py_sorted_def)
next
  case (Cons x xs)
  then have "sorted_wrt (\<lambda>a b. \<not> flt (key b) (key a)) (insort_by key x (py_sorted key xs))"
    by (intro sorted_insort_by) (auto simp: set_py_sorted)
  then show ?case by (simp add: py_sorted_def)
qed

lemma sorted_py_sorted_rev:
  assumes "\<forall>y\<in>set xs. key y \<noteq> NaN"
  shows "sorted_wrt (\<lambda>a b. fge (key a) (key b)) (py_sorted_rev key xs)"
proof -
  have "sorted_wrt (\<lambda>a b. \<not> flt (key b) (key a)) (py_sorted key (rev xs))"
    using assms by (intro sorted_py_sorted) simp
  then have "sorted_wrt (\<lambda>a b. \<not> flt (key a) (key b)) (py_sorted_rev key xs)"
    by (simp add: py_sorted_rev_def sorted_wrt_rev)
  moreover have "\<forall>y\<in>set (py_sorted_rev key xs). key y \<noteq> NaN"
    using assms by (simp add: set_py_sorted_rev)
  ultimately show ?thesis
    by (rule_tac sorted_wrt_mono_rel[rotated]) (auto simp: fge_iff_not_flt)
qed

lemma filter_insort_by:
  "filter (\<lambda>y. key y = v) (insort_by key x ys) =
     (if key x = v then x # filter (\<lambda>y. key y = v) ys else filter (\<lambda>y. key y = v) ys)"
  by (induction ys) (auto simp: flt_irrefl)

lemma filter_py_sorted:
  "filter (\<lambda>y. key y = v) (py_sorted key xs) = filter (\<lambda>y. key y = v) xs"
  by (induction xs) (auto simp: py_sorted_def filter_insort_by)

lemma filter_py_sorted_rev:
  "filter (\<lambda>y. key y = v) (py_sorted_rev key xs) = filter (\<lambda>y. key y = v) xs"
  by (simp add: py_sorted_rev_def filter_py_sorted flip: rev_filter)

lemma last_sorted_minimum:
  assumes "sorted_wrt fge sv" "sv \<noteq> []" "\<forall>v\<in>set sv. v \<noteq> NaN"
  shows "is_minimum (last sv) (sv)"
proof -
  have "fle (last sv) v" if v: "v \<in> set sv" for v
  proof -
    obtain i where i: "i < length sv" "sv ! i = v" using v by (auto simp: in_set_conv_nth)
    show ?thesis
    proof (cases "i = length sv - 1")
      case True
      then have "v = last sv" using i assms(2) by (simp add: last_conv_nth)
      moreover have "v \<noteq> NaN" using assms(3) v by simp
      ultimately show ?thesis by (simp add: fle_refl)
    next
      case False
      then have "i < length sv - 1" using i by simp
      moreover have "length sv - 1 < length sv" using i by simp
      ultimately have "fge (sv ! i) (sv ! (length sv - 1))"
        using assms(1) unfolding sorted_wrt_iff_nth_less by blast
      then show ?thesis using i assms(2) by (simp add: last_conv_nth fge_def)
    qed
  qed
  then show ?thesis using assms(2) by (simp add: is_minimum_def)
qed

lemma is_minimum_cong_set: "set xs = set ys \<Longrightarrow> is_minimum m xs = is_minimum m ys"
  by (simp add: is_minimum_def)

lemma twelve_values_sorted:
  "py_sorted_rev (\<lambda>v. v) twelve_values =
     [Fin 12, Fin 11, Fin 10, Fin 9, Fin 8, Fin 7, Fin 6, Fin 5, Fin 4, Fin 3, Fin 2, Fin 1]"
  by (simp add: twelve_values_def py_sorted_rev_def py_sorted_def)

subsection \<open>The stages of the builder\<close>

lemma ebind_Inr: "ebind m f = Inr y \<longleftrightarrow> (\<exists>x. m = Inr x \<and> f x = Inr y)"
  by (cases m) simp_all

lemma apply_vor_Inr:
  "apply_vor repl rps = Inr r \<Longrightarrow>
   list_all2 (\<lambda>rp rp'. \<exists>k. pos_key_of (position rp) = Inr k \<and>
       rp' = rp\<lparr>vor := compute_vor (fantasy_value rp) k repl\<rparr>) rps r"
  by (induction rps arbitrary: r) (auto simp: ebind_Inr)

lemma need_boost_Inr:
  "need_boost [] rps = Inr r \<Longrightarrow>
   list_all2 (\<lambda>rp rp'. \<exists>k. pos_key_of (position rp) = Inr k \<and>
       rp' = rp\<lparr>vor := fadd (vor rp) (r64 2), recommendation := ''fills '' @ k @ '' need''\<rparr>) rps r"
  by (induction rps arbitrary: r) (auto simp: ebind_Inr boost_def dget_def)

lemma boosted_Inr:
  assumes "boosted float_sum roster sport st = Inr ranked"
  shows "\<exists>repl. replacement_table float_sum (snd st) = Inr repl \<and> list_all2 (boosted_entry repl) (fst st) ranked"
proof -
  from assms obtain repl r where repl: "replacement_table float_sum (snd st) = Inr repl"
    and r: "apply_vor repl (fst st) = Inr r" and b: "need_boost [] r = Inr ranked"
    by (auto simp: boosted_def ebind_Inr count_roster_positions_def)
  have "list_all2 (boosted_entry repl) (fst st) ranked"
    using apply_vor_Inr[OF r] need_boost_Inr[OF b]
    unfolding list_all2_conv_all_nth boosted_entry_def by fastforce
  with repl show ?thesis by blast
qed

lemma boosted_entry_props:
  assumes "list_all2 (boosted_entry repl) rps ranked" "rp \<in> set ranked"
  shows "\<exists>k. pos_key_of (position rp) = Inr k \<and>
     vor rp = fadd (compute_vor (fantasy_value rp) k repl) (r64 2) \<and>
     recommendation rp = ''fills '' @ k @ '' need''"
proof -
  from assms obtain rp0 where "boosted_entry repl rp0 rp"
    by (auto simp: list_all2_conv_all_nth in_set_conv_nth)
  then show ?thesis by (auto simp: boosted_entry_def)
qed

lemma boosted_entry_names:
  "list_all2 (boosted_entry repl) rps ranked \<Longrightarrow> map name ranked = map name rps"
  by (induction rps ranked rule: list_all2_induct) (auto simp: boosted_entry_def)

lemma best_available_tagged:
  "\<forall>rp\<in>set rps. recommendation rp \<noteq> [] \<Longrightarrow> best_available rps = rps"
  by (cases rps) auto

lemma build_draft_board_Inr:
  assumes "build_draft_board float_sum P sport scoring_format drafted_names roster = Inr board"
  shows "\<exists>st repl ranked. valued_pool float_sum P sport scoring_format drafted_names = Inr st \<and>
     boosted float_sum roster sport st = Inr ranked \<and>
     replacement_table float_sum (snd st) = Inr repl \<and> list_all2 (boosted_entry repl) (fst st) ranked \<and>
     board = py_sorted_rev vor ranked"
proof -
  from assms obtain st ranked where st: "valued_pool float_sum P sport scoring_format drafted_names = Inr st"
    and rk: "boosted float_sum roster sport st = Inr ranked"
    and b: "board = best_available (py_sorted_rev vor ranked)"
    by (auto simp: build_draft_board_def ebind_Inr)
  from boosted_Inr[OF rk] obtain repl where repl: "replacement_table float_sum (snd st) = Inr repl"
    and la: "list_all2 (boosted_entry repl) (fst st) ranked" by blast
  have "recommendation rp \<noteq> []" if "rp \<in> set ranked" for rp
    using boosted_entry_props[OF la that] by auto
  then have "\<forall>rp\<in>set (py_sorted_rev vor ranked). recommendation rp \<noteq> []"
    by (simp add: set_py_sorted_rev)
  then have "board = py_sorted_rev vor ranked" using b by (simp add: best_available_tagged)
  with st rk repl la show ?thesis by blast
qed

lemma add_player_names:
  "add_player P nm x st = Inr st' \<Longrightarrow> map name (fst st') = map name (fst st) @ [nm]"
  by (cases x) (auto simp: add_player_def ebind_Inr new_entry_def)

lemma valuation_loop_names:
  "valuation_loop float_sum P sport scoring_format nms st = Inr st' \<Longrightarrow>
   \<exists>ns. map name (fst st') = map name (fst st) @ ns \<and> subseq ns nms"
proof (induction nms arbitrary: st)
  case Nil
  then show ?case by simp
next
  case (Cons nm nms)
  from Cons.prems obtain r where r: "player_stats float_sum P sport scoring_format nm = Inr r"
    and c: "(case r of None \<Rightarrow> valuation_loop float_sum P sport scoring_format nms st
       | Some x \<Rightarrow> ebind (add_player P nm x st) (valuation_loop float_sum P sport scoring_format nms)) = Inr st'"
    by (auto simp: ebind_Inr)
  show ?case
  proof (cases r)
    case None
    with c Cons.IH[of st] obtain ns where "map name (fst st') = map name (fst st) @ ns" "subseq ns nms"
      by auto
    then show ?thesis by (auto intro: subseq_Cons')
  next
    case (Some x)
    with c obtain st1 where a: "add_player P nm x st = Inr st1"
      and l: "valuation_loop float_sum P sport scoring_format nms st1 = Inr st'"
      by (auto simp: ebind_Inr)
    from Cons.IH[OF l] obtain ns where "map name (fst st') = map name (fst st1) @ ns" "subseq ns nms"
      by auto
    then have "map name (fst st') = map name (fst st) @ (nm # ns)" "subseq (nm # ns) (nm # nms)"
      using add_player_names[OF a] by auto
    then show ?thesis by blast
  qed
qed

lemma valued_pool_names:
  "valued_pool float_sum P sport scoring_format drafted_names = Inr st \<Longrightarrow>
   subseq (map name (fst st)) (available_players sport drafted_names)"
  using valuation_loop_names[of float_sum P sport scoring_format "available_players sport drafted_names" "([], [])" st]
  by (auto simp: valued_pool_def)

lemma plain_board:
  "board_rows (build_draft_board neumaier_sum (quiet_providers plain_stats) ''nba'' ''points'' [] []) =
     Inr [(''Luka Doncic'', Fin 32, ''fills PG need''), (''Nikola Jokic'', Fin 22, ''fills C need''),
          (''Jayson Tatum'', Fin 22, ''fills SF need'')]"
  by (simp add: board_rows_def quiet_providers_def plain_stats_def board_eval float_eval
      string_eval scoring_eval)

lemma plain_ranked_rows:
  "build_draft_board neumaier_sum (quiet_providers plain_stats) ''nba'' ''points'' [] [] = Inr plain_ranked"
  "map name plain_ranked = [''Luka Doncic'', ''Nikola Jokic'', ''Jayson Tatum'']"
  "map vor plain_ranked = [Fin 32, Fin 22, Fin 22]"
  "map recommendation plain_ranked = [''fills PG need'', ''fills C need'', ''fills SF need'']"
proof -
  obtain b where b: "build_draft_board neumaier_sum (quiet_providers plain_stats) ''nba'' ''points'' [] [] = Inr b"
    using plain_board
    by (cases "build_draft_board neumaier_sum (quiet_providers plain_stats) ''nba'' ''points'' [] []")
       (auto simp: board_rows_def)
  then have p: "plain_ranked = b" by (simp add: plain_ranked_def)
  show "build_draft_board neumaier_sum (quiet_providers plain_stats) ''nba'' ''points'' [] [] = Inr plain_ranked"
    by (simp add: b p)
  have m: "map (\<lambda>rp. (name rp, vor rp, recommendation rp)) plain_ranked =
     [(''Luka Doncic'', Fin 32, ''fills PG need''), (''Nikola Jokic'', Fin 22, ''fills C need''),
      (''Jayson Tatum'', Fin 22, ''fills SF need'')]"
    using plain_board by (simp add: b p board_rows_def)
  have "map name plain_ranked =
     map fst (map (\<lambda>rp. (name rp, vor rp, recommendation rp)) plain_ranked)"
    by (simp add: comp_def)
  then show "map name plain_ranked = [''Luka Doncic'', ''Nikola Jokic'', ''Jayson Tatum'']"
    unfolding m by simp
  have "map vor plain_ranked =
     map (\<lambda>r. fst (snd r)) (map (\<lambda>rp. (name rp, vor rp, recommendation rp)) plain_ranked)"
    by (simp add: comp_def)
  then show "map vor plain_ranked = [Fin 32, Fin 22, Fin 22]"
    unfolding m by simp
  have "map recommendation plain_ranked =
     map (\<lambda>r. snd (snd r)) (map (\<lambda>rp. (name rp, vor rp, recommendation rp)) plain_ranked)"
    by (simp add: comp_def)
  then show "map recommendation plain_ranked =
     [''fills PG need'', ''fills C need'', ''fills SF need'']"
    unfolding m by simp
qed

section \<open>Scoring models: the claims\<close>

text \<open>
  Claim C6.  For every stat record in which all seven weighted fields are present and valid
  numbers, \<open>compute_nba_points_value\<close> returns the weighted linear sum
  points * 1.0 + rebounds * 1.2 + assists * 1.5 + steals * 3.0 + blocks * 3.0 +
  three-pointers-made * 0.5 + turnovers * (-1.0), rounded to one decimal; in particular
  pts=25, reb=7, ast=8, stl=1.5, blk=0.5, fg3m=2, tov=3 yields 49.4.
\<close>

theorem nba_points_value_weighted_sum:
  "(valid_number stats ''pts'' pts \<and> valid_number stats ''reb'' reb \<and>
    valid_number stats ''ast'' ast \<and> valid_number stats ''stl'' stl \<and>
    valid_number stats ''blk'' blk \<and> valid_number stats ''fg3m'' fg3m \<and>
    valid_number stats ''tov'' tov \<longrightarrow>
      compute_nba_points_value stats = Inr (nba_points_formula pts reb ast stl blk fg3m tov))
   \<and> compute_nba_points_value nba_example = Inr (r64 (494 / 10))"
proof (intro conjI impI)
  assume a: "valid_number stats ''pts'' pts \<and> valid_number stats ''reb'' reb \<and>
    valid_number stats ''ast'' ast \<and> valid_number stats ''stl'' stl \<and>
    valid_number stats ''blk'' blk \<and> valid_number stats ''fg3m'' fg3m \<and>
    valid_number stats ''tov'' tov"
  then have ne: "stats \<noteq> []" by (auto dest: valid_number_nonempty)
  have s: "safe_float (dget stats ''pts'' (PInt 0)) = Inr pts"
    "safe_float (dget stats ''reb'' (PInt 0)) = Inr reb"
    "safe_float (dget stats ''ast'' (PInt 0)) = Inr ast"
    "safe_float (dget stats ''stl'' (PInt 0)) = Inr stl"
    "safe_float (dget stats ''blk'' (PInt 0)) = Inr blk"
    "safe_float (dget stats ''fg3m'' (PInt 0)) = Inr fg3m"
    "safe_float (dget stats ''tov'' (PInt 0)) = Inr tov"
    using a by (simp_all add: safe_float_valid)
  have "weighted_sum stats NBA_POINTS_WEIGHTS (Fin 0) =
      Inr (fadd (fadd (fadd (fadd (fadd (fadd (fadd (Fin 0)
       (fmul pts (r64 1))) (fmul reb (r64 (12 / 10)))) (fmul ast (r64 (15 / 10))))
       (fmul stl (r64 3))) (fmul blk (r64 3))) (fmul fg3m (r64 (5 / 10)))) (fmul tov (r64 (- 1))))"
    by (simp add: NBA_POINTS_WEIGHTS_def s)
  then show "compute_nba_points_value stats = Inr (nba_points_formula pts reb ast stl blk fg3m tov)"
    using ne by (simp add: compute_nba_points_value_def nba_points_formula_def fadd_zero_left)
next
  show "compute_nba_points_value nba_example = Inr (r64 (494 / 10))"
    by (simp add: nba_example_def float_eval scoring_eval)
qed

theorem nba_points_value_weighted_sum_witness:
  "valid_number nba_example ''pts'' (Fin 25) \<and> valid_number nba_example ''reb'' (Fin 7) \<and>
   valid_number nba_example ''ast'' (Fin 8) \<and> valid_number nba_example ''stl'' (Fin (3 / 2)) \<and>
   valid_number nba_example ''blk'' (Fin (1 / 2)) \<and> valid_number nba_example ''fg3m'' (Fin 2) \<and>
   valid_number nba_example ''tov'' (Fin 3) \<and>
   compute_nba_points_value nba_example =
     Inr (nba_points_formula (Fin 25) (Fin 7) (Fin 8) (Fin (3 / 2)) (Fin (1 / 2)) (Fin 2) (Fin 3))"
proof -
  have v: "valid_number nba_example ''pts'' (Fin 25) \<and> valid_number nba_example ''reb'' (Fin 7) \<and>
   valid_number nba_example ''ast'' (Fin 8) \<and> valid_number nba_example ''stl'' (Fin (3 / 2)) \<and>
   valid_number nba_example ''blk'' (Fin (1 / 2)) \<and> valid_number nba_example ''fg3m'' (Fin 2) \<and>
   valid_number nba_example ''tov'' (Fin 3)"
    by (simp add: valid_number_def nba_example_def)
  with nba_points_value_weighted_sum[THEN conjunct1, of nba_example] show ?thesis by blast
qed



text \<open>
  Claim C4.  The claim lets any malformed average input default to .250 rather than fail.
  The handler around the average catches \<open>ValueError\<close> and \<open>TypeError\<close>, as the handlers
  around ERA and WHIP do, but the average is first stripped with \<open>lstrip\<close>: an average that
  is no string (here \<open>None\<close>) raises \<open>AttributeError\<close>, which propagates.  On string
  averages the model and the example hold (\<open>hitting_value_formula\<close>,
  \<open>batting_avg_malformed_string\<close>, \<open>hitting_value_example\<close>).
\<close>

theorem hitting_value_none_avg_raises:
  "compute_mlb_hitting_value hitting_none_avg = Inl AttributeError"
  by (simp add: hitting_none_avg_def float_eval string_eval scoring_eval)

section \<open>Trend and sleepers: the claims\<close>



text \<open>
  Claim C8.  \<open>identify_sleeper\<close> evaluates its rules in order with the first matching rule
  winning: for every input on which the trend rule's condition (trend at least 15.0 and
  fantasy value above 20) holds simultaneously with a position-category rule's condition
  (frontcourt blocks or backcourt steals), the returned reason cites the trend percentage,
  not blocks-per-game or steals-per-game.
\<close>

theorem sleeper_trend_rule_first:
  "trend_rule trend v \<and> (blocks_rule stats trend pos \<or> steals_rule stats trend pos) \<longrightarrow>
     identify_sleeper stats trend v pos = Inr (True, trend_reason trend)
     \<and> trend_reason trend \<noteq> blocks_reason b \<and> trend_reason trend \<noteq> steals_reason s"
  by (simp add: identify_sleeper_def trend_rule_def trend_reason_def blocks_reason_def
      steals_reason_def)

theorem sleeper_trend_rule_first_witness:
  "trend_rule (Fin 20) (Fin 30) \<and> blocks_rule sleeper_both (Fin 20) (PStr ''C'') \<and>
   identify_sleeper sleeper_both (Fin 20) (Fin 30) (PStr ''C'')
     = Inr (True, ''Trending +20% over last 10 games'')"
proof -
  have r: "trend_rule (Fin 20) (Fin 30)" by (simp add: trend_rule_def float_eval)
  have "reads sleeper_both ''blk'' (Fin (5 / 2)) \<and> fge (Fin (5 / 2)) (r64 2)"
    by (simp add: sleeper_both_def reads_def float_eval scoring_eval)
  then have b: "blocks_rule sleeper_both (Fin 20) (PStr ''C'')"
    unfolding blocks_rule_def by (auto simp: float_eval)
  have t: "trend_reason (Fin 20) = ''Trending +20% over last 10 games''"
    by (simp add: trend_reason_def float_eval string_eval)
  from sleeper_trend_rule_first[of "Fin 20" "Fin 30" sleeper_both "PStr ''C''"] r b t
  show ?thesis by simp
qed

text \<open>
  Claim C10.  For every input (stat record, trend, fantasy value, position), the boolean
  flag and the reason string returned by \<open>identify_sleeper\<close> agree: the flag is True if
  and only if the reason string is non-empty, and the not-a-sleeper result is exactly
  (False, "").
\<close>

theorem sleeper_flag_reason_agree:
  "identify_sleeper stats trend v pos = Inr (flag, reason) \<longrightarrow>
     (flag \<longleftrightarrow> reason \<noteq> []) \<and> (\<not> flag \<longrightarrow> (flag, reason) = (False, []))"
proof
  assume a: "identify_sleeper stats trend v pos = Inr (flag, reason)"
  have sp: "spring_rule stats = Inr (f, r) \<Longrightarrow> (f \<longleftrightarrow> r \<noteq> [])" for f r
    by (cases "batting_avg (dget stats ''avg'' (PStr ''.000'')) ''0'' (Fin 0)";
        cases "safe_float (dget stats ''games'' (PInt 0))")
       (auto simp: spring_rule_def split: if_splits)
  have pr: "position_rules stats trend pos blk stl = Inr (f, r) \<Longrightarrow> (f \<longleftrightarrow> r \<noteq> [])"
    for blk stl f r
    using sp by (auto simp: position_rules_def split: if_splits)
  have "flag \<longleftrightarrow> reason \<noteq> []"
    using a pr
    by (cases "safe_float (dget stats ''blk'' (PInt 0))";
        cases "safe_float (dget stats ''stl'' (PInt 0))")
       (auto simp: identify_sleeper_def split: if_splits)
  then show "(flag \<longleftrightarrow> reason \<noteq> []) \<and> (\<not> flag \<longrightarrow> (flag, reason) = (False, []))"
    by auto
qed

theorem sleeper_flag_reason_agree_witness:
  "identify_sleeper [(''pts'', PInt 10), (''blk'', PFloat (Fin (1 / 2)))] (Fin 3) (Fin 15) (PStr ''SF'')
     = Inr (False, []) \<and> (False \<longleftrightarrow> ([]::string) \<noteq> [])"
proof -
  have e: "identify_sleeper [(''pts'', PInt 10), (''blk'', PFloat (Fin (1 / 2)))] (Fin 3) (Fin 15)
      (PStr ''SF'') = Inr (False, [])"
    by (simp add: float_eval string_eval scoring_eval)
  from sleeper_flag_reason_agree[of "[(''pts'', PInt 10), (''blk'', PFloat (Fin (1 / 2)))]"
      "Fin 3" "Fin 15" "PStr ''SF''" False "[]"] e
  show ?thesis by simp
qed

section \<open>Value over replacement: the claims\<close>

text \<open>
  \<open>compute_vor\<close> rounds to one decimal: a value of 12.25 at a position without a baseline
  gives 12.2, not the value itself.
\<close>

theorem vor_unknown_position_counterexample:
  "map_of ([]::(string \<times> pyfloat) list) ''UTIL'' = None \<and> is_double (Fin (49 / 4)) \<and>
   compute_vor (Fin (49 / 4)) ''UTIL'' [] = r64 (122 / 10) \<and> r64 (122 / 10) \<noteq> Fin (49 / 4)"
  by (simp add: is_double_def float_eval scoring_eval)

text \<open>
  Claim C9, amended.  For every player whose position key is absent from the
  replacement-baseline mapping, the baseline used is 0 and the computed VOR equals that
  player's adjusted fantasy value rounded to one decimal; it equals the value unchanged
  exactly when the value already is a one-decimal float.
\<close>

theorem vor_unknown_position_rounded:
  "map_of replacement_values pos = None \<and> is_double player_value \<longrightarrow>
     compute_vor player_value pos replacement_values = round1 player_value
     \<and> (compute_vor player_value pos replacement_values = player_value
          \<longleftrightarrow> round1 player_value = player_value)"
  by (simp add: compute_vor_def dget_def fsub_zero_right)

theorem vor_unknown_position_rounded_witness:
  "map_of [(''PG'', Fin 30)] ''UTIL'' = None \<and> is_double (Fin 45) \<and>
   compute_vor (Fin 45) ''UTIL'' [(''PG'', Fin 30)] = round1 (Fin 45) \<and> round1 (Fin 45) = Fin 45"
proof -
  have h: "map_of [(''PG'', Fin 30)] ''UTIL'' = None \<and> is_double (Fin 45)"
    by (simp add: is_double_def float_eval)
  have r: "round1 (Fin 45) = Fin 45" by (simp add: float_eval)
  from vor_unknown_position_rounded[of "[(''PG'', Fin 30)]" "''UTIL''" "Fin 45"] h r
  show ?thesis by simp
qed

section \<open>Replacement baseline and draft board: the claims\<close>

text \<open>
  With a NaN among the values of a position the comparisons of the sort all fail, the list
  stays as it is, and its last element is not the minimum.
\<close>

theorem replacement_level_nan_counterexample:
  "3 \<le> length [Fin 1, NaN, NaN] \<and> length [Fin 1, NaN, NaN] < 12 \<and>
   replacement_level neumaier_sum [Fin 1, NaN, NaN] = Inr NaN \<and> \<not> is_minimum NaN [Fin 1, NaN, NaN]"
  by (auto simp: replacement_level_def py_sorted_rev_def py_sorted_def is_minimum_def fle_def)

text \<open>
  Claim C2, amended.  For every position's list of observed fantasy values none of which is
  NaN, the replacement baseline equals: the arithmetic mean of the 8th- through 12th-highest
  values (the 0-indexed slice [7:12] of the descending-sorted list) when the list has at
  least 12 values; else the minimum observed value when the list has at least 3 values;
  else 0.
\<close>

theorem replacement_level_baseline:
  "(\<forall>v\<in>set vals. v \<noteq> NaN) \<longrightarrow>
     mset (py_sorted_rev (\<lambda>v. v) vals) = mset vals \<and>
     sorted_wrt fge (py_sorted_rev (\<lambda>v. v) vals) \<and>
     (12 \<le> length vals \<longrightarrow>
        replacement_level float_sum vals = Inr (mean5 float_sum (take 5 (drop 7 (py_sorted_rev (\<lambda>v. v) vals))))) \<and>
     (3 \<le> length vals \<and> length vals < 12 \<longrightarrow>
        (\<exists>m. replacement_level float_sum vals = Inr m \<and> is_minimum m vals)) \<and>
     (length vals < 3 \<longrightarrow> replacement_level float_sum vals = Inr (Fin 0))"
proof
  assume nn: "\<forall>v\<in>set vals. v \<noteq> NaN"
  let ?sv = "py_sorted_rev (\<lambda>v. v) vals"
  have srt: "sorted_wrt fge ?sv" using nn by (rule sorted_py_sorted_rev)
  have min: "is_minimum (last ?sv) vals" if "3 \<le> length vals"
  proof -
    have "?sv \<noteq> []" using that length_py_sorted_rev[of "\<lambda>v. v" vals] by auto
    then have "is_minimum (last ?sv) ?sv"
      using srt nn by (intro last_sorted_minimum) (simp_all add: set_py_sorted_rev)
    then show ?thesis by (simp add: is_minimum_cong_set[OF set_py_sorted_rev])
  qed
  show "mset ?sv = mset vals \<and> sorted_wrt fge ?sv \<and>
     (12 \<le> length vals \<longrightarrow> replacement_level float_sum vals = Inr (mean5 float_sum (take 5 (drop 7 ?sv)))) \<and>
     (3 \<le> length vals \<and> length vals < 12 \<longrightarrow>
        (\<exists>m. replacement_level float_sum vals = Inr m \<and> is_minimum m vals)) \<and>
     (length vals < 3 \<longrightarrow> replacement_level float_sum vals = Inr (Fin 0))"
    using srt min
    by (auto simp: mset_py_sorted_rev replacement_level_def mean5_def fdiv_def)
qed

theorem replacement_level_baseline_witness:
  "NaN \<notin> set twelve_values \<and>
   replacement_level neumaier_sum twelve_values =
     Inr (mean5 neumaier_sum [Fin 5, Fin 4, Fin 3, Fin 2, Fin 1]) \<and>
   mean5 neumaier_sum [Fin 5, Fin 4, Fin 3, Fin 2, Fin 1] = Fin 3 \<and>
   NaN \<notin> set [Fin 30, Fin 10, Fin 20] \<and>
   replacement_level neumaier_sum [Fin 30, Fin 10, Fin 20] = Inr (Fin 10) \<and>
   is_minimum (Fin 10) [Fin 30, Fin 10, Fin 20]"
proof -
  have n12: "\<forall>v\<in>set twelve_values. v \<noteq> NaN" by (simp add: twelve_values_def)
  have l12: "12 \<le> length twelve_values" by (simp add: twelve_values_def)
  from replacement_level_baseline[of twelve_values neumaier_sum] n12 l12
  have a: "replacement_level neumaier_sum twelve_values =
     Inr (mean5 neumaier_sum [Fin 5, Fin 4, Fin 3, Fin 2, Fin 1])"
    by (simp add: twelve_values_sorted)
  have m: "mean5 neumaier_sum [Fin 5, Fin 4, Fin 3, Fin 2, Fin 1] = Fin 3"
    by (simp add: mean5_def neumaier_step_def neumaier_finish_def float_eval)
  have n: "\<forall>v\<in>set [Fin 30, Fin 10, Fin 20]. v \<noteq> NaN" by simp
  have e: "replacement_level neumaier_sum [Fin 30, Fin 10, Fin 20] = Inr (Fin 10)"
    by (simp add: replacement_level_def py_sorted_rev_def py_sorted_def)
  from replacement_level_baseline[of "[Fin 30, Fin 10, Fin 20]" neumaier_sum] n e
  have "is_minimum (Fin 10) [Fin 30, Fin 10, Fin 20]" by auto
  moreover have "NaN \<notin> set twelve_values" by (simp add: twelve_values_def)
  ultimately show ?thesis using a m e by simp
qed

text \<open>
  Claim C3.  In every invocation of \<open>build_draft_board\<close>, for every roster argument,
  roster-position counting reports no positions held, so every ranked candidate receives
  the +2.0 positional-need VOR bonus and a "fills <position> need" recommendation tag: the
  bonus and the tag are applied to all candidates in every invocation.
\<close>

theorem board_need_bonus_everywhere:
  "build_draft_board float_sum P sport scoring_format drafted_names roster = Inr board \<longrightarrow>
     count_roster_positions roster sport = [] \<and>
     (\<exists>st repl. valued_pool float_sum P sport scoring_format drafted_names = Inr st \<and>
        replacement_table float_sum (snd st) = Inr repl \<and> length board = length (fst st) \<and>
        (\<forall>rp\<in>set board. \<exists>k. pos_key_of (position rp) = Inr k \<and>
           vor rp = fadd (compute_vor (fantasy_value rp) k repl) (r64 2) \<and>
           recommendation rp = ''fills '' @ k @ '' need''))"
proof
  assume "build_draft_board float_sum P sport scoring_format drafted_names roster = Inr board"
  from build_draft_board_Inr[OF this] obtain st repl ranked where
    st: "valued_pool float_sum P sport scoring_format drafted_names = Inr st"
    and repl: "replacement_table float_sum (snd st) = Inr repl"
    and la: "list_all2 (boosted_entry repl) (fst st) ranked"
    and b: "board = py_sorted_rev vor ranked" by blast
  have "length board = length (fst st)"
    using la by (simp add: b length_py_sorted_rev list_all2_lengthD)
  moreover have "\<forall>rp\<in>set board. \<exists>k. pos_key_of (position rp) = Inr k \<and>
           vor rp = fadd (compute_vor (fantasy_value rp) k repl) (r64 2) \<and>
           recommendation rp = ''fills '' @ k @ '' need''"
    using boosted_entry_props[OF la] by (simp add: b set_py_sorted_rev)
  ultimately show "count_roster_positions roster sport = [] \<and>
     (\<exists>st repl. valued_pool float_sum P sport scoring_format drafted_names = Inr st \<and>
        replacement_table float_sum (snd st) = Inr repl \<and> length board = length (fst st) \<and>
        (\<forall>rp\<in>set board. \<exists>k. pos_key_of (position rp) = Inr k \<and>
           vor rp = fadd (compute_vor (fantasy_value rp) k repl) (r64 2) \<and>
           recommendation rp = ''fills '' @ k @ '' need''))"
    using st repl by (auto simp: count_roster_positions_def)
qed

theorem board_need_bonus_everywhere_witness:
  "build_draft_board neumaier_sum (quiet_providers plain_stats) ''nba'' ''points'' [] [] = Inr plain_ranked \<and>
   map name plain_ranked = [''Luka Doncic'', ''Nikola Jokic'', ''Jayson Tatum''] \<and>
   map recommendation plain_ranked = [''fills PG need'', ''fills C need'', ''fills SF need''] \<and>
   list_all (\<lambda>rp. \<exists>k. pos_key_of (position rp) = Inr k \<and>
      recommendation rp = ''fills '' @ k @ '' need'') plain_ranked"
proof -
  from board_need_bonus_everywhere[of neumaier_sum "quiet_providers plain_stats" "''nba''" "''points''" "[]" "[]"
      plain_ranked] plain_ranked_rows(1)
  have "\<forall>rp\<in>set plain_ranked. \<exists>k. pos_key_of (position rp) = Inr k \<and>
      recommendation rp = ''fills '' @ k @ '' need''"
    by blast
  then show ?thesis using plain_ranked_rows by (simp add: list_all_iff)
qed

text \<open>
  A provider that reports a NaN for one player gives that player a NaN value over
  replacement; the sort leaves the entry in front of a player with 22.0, and NaN >= 22.0
  is false.
\<close>

theorem board_unsorted_with_nan_counterexample:
  "board_rows (build_draft_board neumaier_sum (quiet_providers nan_stats) ''nba'' ''points'' [] []) =
     Inr [(''Nikola Jokic'', NaN, ''fills C need''), (''Luka Doncic'', Fin 22, ''fills PG need'')]
   \<and> \<not> fge NaN (Fin 22)"
  by (simp add: board_rows_def quiet_providers_def nan_stats_def board_eval float_eval
      string_eval scoring_eval)

text \<open>
  Claim C1, amended.  For every invocation of \<open>build_draft_board\<close> in which no entry's
  VOR is NaN, the returned list is sorted by VOR in non-increasing order: for every adjacent
  pair of entries at ranks i and i+1, the VOR of the entry at rank i is greater than or
  equal to the VOR of the entry at rank i+1, and entries with equal VOR keep their
  pool-iteration (insertion) order.
\<close>

theorem board_sorted_by_vor:
  "build_draft_board float_sum P sport scoring_format drafted_names roster = Inr board \<and>
   (\<forall>rp\<in>set board. vor rp \<noteq> NaN) \<longrightarrow>
     (\<forall>i. Suc i < length board \<longrightarrow> fge (vor (board ! i)) (vor (board ! Suc i))) \<and>
     (\<exists>st ranked. valued_pool float_sum P sport scoring_format drafted_names = Inr st \<and>
        boosted float_sum roster sport st = Inr ranked \<and>
        subseq (map name ranked) (available_players sport drafted_names) \<and>
        (\<forall>v. filter (\<lambda>rp. vor rp = v) board = filter (\<lambda>rp. vor rp = v) ranked))"
proof
  assume a: "build_draft_board float_sum P sport scoring_format drafted_names roster = Inr board \<and>
   (\<forall>rp\<in>set board. vor rp \<noteq> NaN)"
  from build_draft_board_Inr[OF a[THEN conjunct1]] obtain st repl ranked where
    st: "valued_pool float_sum P sport scoring_format drafted_names = Inr st"
    and rk: "boosted float_sum roster sport st = Inr ranked"
    and la: "list_all2 (boosted_entry repl) (fst st) ranked"
    and b: "board = py_sorted_rev vor ranked" by blast
  have "\<forall>rp\<in>set ranked. vor rp \<noteq> NaN" using a by (simp add: b set_py_sorted_rev)
  then have "sorted_wrt (\<lambda>x y. fge (vor x) (vor y)) board"
    unfolding b by (rule sorted_py_sorted_rev)
  then have adj: "\<forall>i. Suc i < length board \<longrightarrow> fge (vor (board ! i)) (vor (board ! Suc i))"
    by (simp add: sorted_wrt_iff_nth_less)
  have sub: "subseq (map name ranked) (available_players sport drafted_names)"
    using valued_pool_names[OF st] by (simp add: boosted_entry_names[OF la])
  have "\<forall>v. filter (\<lambda>rp. vor rp = v) board = filter (\<lambda>rp. vor rp = v) ranked"
    by (simp add: b filter_py_sorted_rev)
  with adj sub st rk show "(\<forall>i. Suc i < length board \<longrightarrow> fge (vor (board ! i)) (vor (board ! Suc i))) \<and>
     (\<exists>st ranked. valued_pool float_sum P sport scoring_format drafted_names = Inr st \<and>
        boosted float_sum roster sport st = Inr ranked \<and>
        subseq (map name ranked) (available_players sport drafted_names) \<and>
        (\<forall>v. filter (\<lambda>rp. vor rp = v) board = filter (\<lambda>rp. vor rp = v) ranked))"
    by blast
qed

theorem board_sorted_by_vor_witness:
  "build_draft_board neumaier_sum (quiet_providers plain_stats) ''nba'' ''points'' [] [] = Inr plain_ranked \<and>
   NaN \<notin> set (map vor plain_ranked) \<and>
   map name plain_ranked = [''Luka Doncic'', ''Nikola Jokic'', ''Jayson Tatum''] \<and>
   map vor plain_ranked = [Fin 32, Fin 22, Fin 22] \<and>
   fge (vor (plain_ranked ! 0)) (vor (plain_ranked ! 1)) \<and>
   fge (vor (plain_ranked ! 1)) (vor (plain_ranked ! 2))"
proof -
  have n: "\<forall>rp\<in>set plain_ranked. vor rp \<noteq> NaN"
    using plain_ranked_rows(3) by (metis (no_types) image_eqI list.set_map list.simps(15)
        empty_iff insert_iff list.set(1) pyfloat.distinct(5))
  have l: "length plain_ranked = 3"
    using plain_ranked_rows(3) by (metis length_map length_Cons list.size(3) numeral_3_eq_3)
  from board_sorted_by_vor[of neumaier_sum "quiet_providers plain_stats" "''nba''" "''points''" "[]" "[]"
      plain_ranked] plain_ranked_rows(1) n
  have "\<forall>i. Suc i < length plain_ranked \<longrightarrow> fge (vor (plain_ranked ! i)) (vor (plain_ranked ! Suc i))"
    by blast
  then have "fge (vor (plain_ranked ! 0)) (vor (plain_ranked ! Suc 0))"
    "fge (vor (plain_ranked ! 1)) (vor (plain_ranked ! Suc 1))"
    using l by simp_all
  then show ?thesis using plain_ranked_rows by (simp add: numeral_2_eq_2)
qed

end
